theory Spec2Isabelle
  imports Complex_Main
begin

section \<open>Conventions of the embedding\<close>

text \<open>
  The four scripts of the repository compute with Python and numpy floating-point
  numbers. This development embeds them over the real numbers: a finite float is a
  \<^typ>\<open>real\<close>, and arithmetic is exact. Rounding error of the binary format is not
  modelled, so statements that the specification makes "within floating-point
  tolerance" are proved as exact equalities of the ideal values, and the values read
  from a CSV file are finite numbers.

  On finite data the scripts can produce a value that is no finite number in two places:
  the statistics of an empty or one-element series are NaN, which is the value \<open>None\<close>
  of \<^typ>\<open>real option\<close> here, and the division of a weight array by a zero sum, which
  is modelled where it occurs.

  An exception of the source is a value \<open>Inl e\<close> of a sum type.
\<close>

datatype error = ValueError | IndexError | KeyError

type_synonym pyfloat = "real option"

text \<open>Arithmetic on floats that may be NaN: NaN is absorbing.\<close>

fun fadd :: "pyfloat \<Rightarrow> pyfloat \<Rightarrow> pyfloat" where
  "fadd (Some a) (Some b) = Some (a + b)"
| "fadd _ _ = None"

fun fsub :: "pyfloat \<Rightarrow> pyfloat \<Rightarrow> pyfloat" where
  "fsub (Some a) (Some b) = Some (a - b)"
| "fsub _ _ = None"

fun fmul :: "pyfloat \<Rightarrow> pyfloat \<Rightarrow> pyfloat" where
  "fmul (Some a) (Some b) = Some (a * b)"
| "fmul _ _ = None"

text \<open>Division by a non-zero finite constant (the scripts only halve).\<close>

fun fhalf :: "pyfloat \<Rightarrow> pyfloat" where
  "fhalf (Some a) = Some (a / 2)"
| "fhalf None = None"

text \<open>
  Python's builtin \<^verbatim>\<open>max(a, b)\<close> returns \<^verbatim>\<open>b\<close> only when \<^verbatim>\<open>b > a\<close> holds; every
  comparison with NaN is false, so \<^verbatim>\<open>max(0.0, nan)\<close> is \<^verbatim>\<open>0.0\<close> and
  \<^verbatim>\<open>max(nan, x)\<close> is NaN.
\<close>

fun py_max :: "pyfloat \<Rightarrow> pyfloat \<Rightarrow> pyfloat" where
  "py_max (Some a) (Some b) = (if b > a then Some b else Some a)"
| "py_max a _ = a"

text \<open>
  \<^verbatim>\<open>int(np.floor(x))\<close> and \<^verbatim>\<open>int(np.ceil(x))\<close>: the conversion of NaN to \<^verbatim>\<open>int\<close>
  raises ValueError.
\<close>

fun int_floor :: "pyfloat \<Rightarrow> error + int" where
  "int_floor None = Inl ValueError"
| "int_floor (Some x) = Inr \<lfloor>x\<rfloor>"

fun int_ceil :: "pyfloat \<Rightarrow> error + int" where
  "int_ceil None = Inl ValueError"
| "int_ceil (Some x) = Inr \<lceil>x\<rceil>"

text \<open>A loop whose body may raise: the first exception ends it.\<close>

fun traverse :: "('a \<Rightarrow> error + 'b) \<Rightarrow> 'a list \<Rightarrow> error + 'b list" where
  "traverse f [] = Inr []"
| "traverse f (x # xs) =
     (case f x of
        Inl e \<Rightarrow> Inl e
      | Inr y \<Rightarrow> (case traverse f xs of Inl e \<Rightarrow> Inl e | Inr ys \<Rightarrow> Inr (y # ys)))"

section \<open>The uncertainty-set builder (uncertainty_sets.py)\<close>

text \<open>The two columns of the input CSV that the script reads.\<close>

record demand_row =
  hospital_id :: string
  demand :: real

type_synonym dataframe = "demand_row list"

definition HOSPITALS :: "string list" where
  "HOSPITALS = [''H1'', ''H2'', ''H3'']"

definition MINMAX_BOX_LEVELS :: "real list" where
  "MINMAX_BOX_LEVELS = [1.0, 0.75, 0.5]"

definition EV_BOX_LEVELS :: "int list" where
  "EV_BOX_LEVELS = [0, 1, 2]"

text \<open>\<^verbatim>\<open>df.loc[df["hospital_id"] == hid, "demand"]\<close>\<close>

definition demands_of :: "dataframe \<Rightarrow> string \<Rightarrow> real list" where
  "demands_of df hid = map demand (filter (\<lambda>r. hospital_id r = hid) df)"

text \<open>
  The pandas reductions. On an empty series \<^verbatim>\<open>min\<close>, \<^verbatim>\<open>max\<close> and \<^verbatim>\<open>mean\<close> are NaN;
  \<^verbatim>\<open>std(ddof=1)\<close> divides by \<open>n - 1\<close> and is NaN for fewer than two values.
\<close>

definition series_min :: "real list \<Rightarrow> pyfloat" where
  "series_min xs = (if xs = [] then None else Some (Min (set xs)))"

definition series_max :: "real list \<Rightarrow> pyfloat" where
  "series_max xs = (if xs = [] then None else Some (Max (set xs)))"

definition mean_of :: "real list \<Rightarrow> real" where
  "mean_of xs = sum_list xs / real (length xs)"

definition series_mean :: "real list \<Rightarrow> pyfloat" where
  "series_mean xs = (if xs = [] then None else Some (mean_of xs))"

definition std_of :: "real list \<Rightarrow> real" where
  "std_of xs = sqrt (sum_list (map (\<lambda>x. (x - mean_of xs)\<^sup>2) xs) / real (length xs - 1))"

definition series_std :: "real list \<Rightarrow> pyfloat" where
  "series_std xs = (if length xs < 2 then None else Some (std_of xs))"

record hospital_stats =
  stat_min :: pyfloat
  stat_max :: pyfloat
  stat_mean :: pyfloat
  stat_std :: pyfloat

definition stats :: "dataframe \<Rightarrow> string \<Rightarrow> hospital_stats" where
  "stats df hid =
     (let demands = demands_of df hid in
      \<lparr> stat_min = series_min demands,
        stat_max = series_max demands,
        stat_mean = series_mean demands,
        stat_std = series_std demands \<rparr>)"

record interval_row =
  uncertainty_type :: string
  level :: real
  row_hospital :: string
  lower_bound :: int
  upper_bound :: int

text \<open>The body of the min-max loop, for one level \<open>alpha\<close> and one hospital.\<close>

definition minmax_box :: "dataframe \<Rightarrow> real \<times> string \<Rightarrow> error + interval_row" where
  "minmax_box df = (\<lambda>(alpha, hid).
     (let dmin = stat_min (stats df hid);
          dmax = stat_max (stats df hid);
          lower = fadd dmin (fhalf (fmul (fsub dmax dmin) (Some (1 - alpha))));
          upper = fsub dmax (fhalf (fmul (fsub dmax dmin) (Some (1 - alpha))))
      in case int_floor lower of
           Inl e \<Rightarrow> Inl e
         | Inr lo \<Rightarrow>
            (case int_ceil upper of
               Inl e \<Rightarrow> Inl e
             | Inr up \<Rightarrow>
                 Inr \<lparr> uncertainty_type = ''minmax_box'', level = alpha,
                       row_hospital = hid, lower_bound = lo, upper_bound = up \<rparr>)))"

text \<open>The body of the EV loop, for one multiple \<open>k\<close> and one hospital.\<close>

definition ev_box :: "dataframe \<Rightarrow> int \<times> string \<Rightarrow> error + interval_row" where
  "ev_box df = (\<lambda>(k, hid).
     (let mu = stat_mean (stats df hid);
          sigma = stat_std (stats df hid);
          lower = py_max (Some 0) (fsub mu (fmul (Some (of_int k)) sigma));
          upper = fadd mu (fmul (Some (of_int k)) sigma)
      in case int_floor lower of
           Inl e \<Rightarrow> Inl e
         | Inr lo \<Rightarrow>
            (case int_ceil upper of
               Inl e \<Rightarrow> Inl e
             | Inr up \<Rightarrow>
                 Inr \<lparr> uncertainty_type = ''ev_box'', level = of_int k,
                       row_hospital = hid, lower_bound = lo, upper_bound = up \<rparr>)))"

text \<open>
  The two nested loops, outer over the levels and inner over the hospitals, appending
  to one list of rows. The levels are parameters here; the script fixes them.
\<close>

definition build_sets :: "real list \<Rightarrow> int list \<Rightarrow> dataframe \<Rightarrow> error + interval_row list" where
  "build_sets alphas ks df =
     (case traverse (minmax_box df) (List.product alphas HOSPITALS) of
        Inl e \<Rightarrow> Inl e
      | Inr rows1 \<Rightarrow>
         (case traverse (ev_box df) (List.product ks HOSPITALS) of
            Inl e \<Rightarrow> Inl e
          | Inr rows2 \<Rightarrow> Inr (rows1 @ rows2)))"

definition uncertainty_sets :: "dataframe \<Rightarrow> error + interval_row list" where
  "uncertainty_sets df = build_sets MINMAX_BOX_LEVELS EV_BOX_LEVELS df"

section \<open>Helpers shared by the three generators\<close>

text \<open>
  Python's format specifications \<^verbatim>\<open>{n:03d}\<close> and \<^verbatim>\<open>{n:04d}\<close> on a non-negative
  integer: the decimal digits, padded on the left with zeros to the given width.
\<close>

definition digit_char :: "nat \<Rightarrow> char" where
  "digit_char d = char_of (48 + d)"

fun digits :: "nat \<Rightarrow> string" where
  "digits n = (if n < 10 then [digit_char n] else digits (n div 10) @ [digit_char (n mod 10)])"

declare digits.simps [simp del]

definition zero_pad :: "nat \<Rightarrow> nat \<Rightarrow> string" where
  "zero_pad width n = replicate (width - length (digits n)) CHR ''0'' @ digits n"

text \<open>
  \<^verbatim>\<open>np.rint\<close>: rounding to the nearest integer, a tie going to the even neighbour.
  \<^verbatim>\<open>np.round(x, 2)\<close> scales by 100, rounds to the nearest integer and scales back.
\<close>

definition rint :: "real \<Rightarrow> int" where
  "rint x =
     (if x - of_int \<lfloor>x\<rfloor> < 1 / 2 then \<lfloor>x\<rfloor>
      else if 1 / 2 < x - of_int \<lfloor>x\<rfloor> then \<lfloor>x\<rfloor> + 1
      else if even \<lfloor>x\<rfloor> then \<lfloor>x\<rfloor> else \<lfloor>x\<rfloor> + 1)"

definition round2 :: "real \<Rightarrow> real" where
  "round2 x = of_int (rint (x * 100)) / 100"

text \<open>\<^verbatim>\<open>np.clip(v, 0, None)\<close> on an array.\<close>

definition clip0 :: "real list \<Rightarrow> real list" where
  "clip0 v = map (max 0) v"

text \<open>Elementwise sum of two arrays of the same shape.\<close>

definition vadd :: "real list \<Rightarrow> real list \<Rightarrow> real list" where
  "vadd u v = map2 (+) u v"

text \<open>
  \<^verbatim>\<open>drop_duplicates\<close> keeps the first occurrence of every row, in order. The sum of the
  scenario probabilities is taken as \<^verbatim>\<open>summarize_dataset\<close> takes it: over the distinct
  (scenario_id, scenario_probability) pairs of the table.
\<close>

definition drop_duplicates :: "'a list \<Rightarrow> 'a list" where
  "drop_duplicates xs = rev (remdups (rev xs))"

definition probability_sum :: "(string \<times> real) list \<Rightarrow> real" where
  "probability_sum cols = sum_list (map snd (drop_duplicates cols))"

section \<open>The discrete dataset builder (dataset.py)\<close>

definition dataset_hospitals :: "(string \<times> string \<times> int \<times> real) list" where
  "dataset_hospitals =
     [(''H1'', ''Central Hospital'', 250, 2.0),
      (''H2'', ''North Clinic'', 180, 2.2),
      (''H3'', ''South Medical Center'', 150, 1.8)]"

definition shortage_penalty :: real where
  "shortage_penalty = 8.0"

definition dataset_scenarios :: "(string \<times> string \<times> int list \<times> real) list" where
  "dataset_scenarios =
     [(''S0'', ''no_disaster'', [6, 5, 4], 0.65),
      (''S1'', ''mild_flood'', [60, 45, 35], 0.05),
      (''S2'', ''moderate_flood'', [85, 65, 45], 0.04),
      (''S3'', ''earthquake'', [110, 85, 65], 0.05),
      (''S4'', ''heatwave'', [70, 55, 45], 0.1),
      (''S5'', ''severe_storm'', [95, 75, 55], 0.05),
      (''S6'', ''major_earthquake'', [150, 110, 90], 0.04),
      (''S7'', ''multi_wave_pandemic'', [200, 140, 120], 0.02)]"

record dataset_row =
  d_scenario_id :: string
  d_scenario_probability :: real
  d_disaster_type :: string
  d_hospital_id :: string
  d_hospital_name :: string
  d_capacity_beds :: int
  d_demand :: int
  d_allocation_cost_per_unit :: real
  d_shortage_penalty_per_unit :: real

text \<open>
  The body of the inner loop. A missing key of \<^verbatim>\<open>hospitals\<close> raises KeyError and a
  demand list that is too short raises IndexError.
\<close>

definition dataset_row_of ::
  "(string \<times> string \<times> int list \<times> real) \<times> (nat \<times> string) \<Rightarrow> error + dataset_row" where
  "dataset_row_of = (\<lambda>((sid, dtype, demands, probability), (i, hid)).
     (case map_of dataset_hospitals hid of
        None \<Rightarrow> Inl KeyError
      | Some (hname, capacity, alloc_cost) \<Rightarrow>
         (if i < length demands
          then Inr \<lparr> d_scenario_id = sid,
                     d_scenario_probability = probability,
                     d_disaster_type = dtype,
                     d_hospital_id = hid,
                     d_hospital_name = hname,
                     d_capacity_beds = capacity,
                     d_demand = demands ! i,
                     d_allocation_cost_per_unit = alloc_cost,
                     d_shortage_penalty_per_unit = shortage_penalty \<rparr>
          else Inl IndexError)))"

definition dataset_rows :: "error + dataset_row list" where
  "dataset_rows =
     traverse dataset_row_of
       (List.product dataset_scenarios (enumerate 0 [''H1'', ''H2'', ''H3'']))"

text \<open>The scenario_id and scenario_probability columns of the table.\<close>

definition dataset_columns :: "dataset_row list \<Rightarrow> (string \<times> real) list" where
  "dataset_columns df = map (\<lambda>r. (d_scenario_id r, d_scenario_probability r)) df"

section \<open>The hybrid sampler (hospital_continuous_dataset.py)\<close>

definition hybrid_hospitals :: "(string \<times> string \<times> int \<times> real \<times> real) list" where
  "hybrid_hospitals =
     [(''H1'', ''Central Hospital'', 220, 2.0, 2.7),
      (''H2'', ''North Clinic'', 160, 2.2, 3.0),
      (''H3'', ''South Medical Center'', 140, 1.8, 2.43)]"

definition hybrid_scenarios :: "(string \<times> string \<times> int list \<times> real) list" where
  "hybrid_scenarios =
     [(''S0'', ''no_disaster'', [6, 5, 4], 0.65),
      (''S1'', ''mild_flood'', [60, 45, 35], 0.05),
      (''S2'', ''moderate_flood'', [85, 65, 45], 0.04),
      (''S3'', ''earthquake'', [110, 85, 65], 0.05),
      (''S4'', ''heatwave'', [70, 55, 45], 0.1),
      (''S5'', ''severe_storm'', [95, 75, 55], 0.05),
      (''S6'', ''major_earthquake'', [150, 110, 90], 0.04),
      (''S7'', ''multi_wave_pandemic'', [200, 140, 120], 0.02)]"

definition NUM_CONTINUOUS_SAMPLES_PER_SCENARIO :: nat where
  "NUM_CONTINUOUS_SAMPLES_PER_SCENARIO = 50"

text \<open>
  The seeded generator is a process-wide object whose state advances with every call.
  Its outputs are a parameter of the model: what the generator returns in each iteration
  of the sampling loop, in call order. The arguments that the script passes (means,
  covariance, standard deviations) select the distribution of these values and nothing
  else; the properties below hold for every value that the generator can return.

  One iteration of the hybrid loop draws a multivariate normal vector and a vector of
  independent normals, each with one entry per hospital.
\<close>

record hybrid_draw =
  hy_regional :: "real list"
  hy_idio :: "real list"


record hybrid_row =
  h_scenario_id :: string
  h_scenario_probability :: real
  h_disaster_type :: string
  h_hospital_id :: string
  h_hospital_name :: string
  h_capacity_beds :: int
  h_demand :: int
  h_allocation_cost_per_unit :: real
  h_shortage_penalty_per_unit :: real
  h_surge_cost_per_unit :: real
  h_regional_component :: real
  h_idiosyncratic_component :: real

text \<open>
  The body of the sample loop: iteration \<open>sample_idx\<close> for the scenario at position
  \<open>pos\<close> of the catalogue is call number \<open>pos * N + sample_idx\<close> of the generator.
  The inner loop runs over the keys of \<^verbatim>\<open>hospitals\<close> and looks each key up again, which
  is a loop over the entries. The integer demand passes through \<^verbatim>\<open>round(_, 2)\<close>
  unchanged. The script has its own \<^verbatim>\<open>shortage_penalty\<close>, of the same value 8.0 as that
  of the discrete builder.
\<close>

definition hybrid_sample_rows ::
  "(nat \<Rightarrow> hybrid_draw) \<Rightarrow> (nat \<times> string \<times> string \<times> int list \<times> real) \<times> nat \<Rightarrow> hybrid_row list" where
  "hybrid_sample_rows rng = (\<lambda>((pos, sid, dtype, demands, probability), sample_idx).
     (let base_demand = map of_int demands;
          call = pos * NUM_CONTINUOUS_SAMPLES_PER_SCENARIO + sample_idx;
          regional = hy_regional (rng call);
          idio = hy_idio (rng call);
          continuous_demand = map rint (clip0 (vadd (vadd base_demand regional) idio))
      in map (\<lambda>(i, (hid, hname, capacity, alloc_cost, surge_cost)).
            \<lparr> h_scenario_id = sid @ ''_'' @ zero_pad 3 sample_idx,
              h_scenario_probability = probability / real NUM_CONTINUOUS_SAMPLES_PER_SCENARIO,
              h_disaster_type = dtype,
              h_hospital_id = hid,
              h_hospital_name = hname,
              h_capacity_beds = capacity,
              h_demand = continuous_demand ! i,
              h_allocation_cost_per_unit = alloc_cost,
              h_shortage_penalty_per_unit = shortage_penalty,
              h_surge_cost_per_unit = surge_cost,
              h_regional_component = round2 (regional ! i),
              h_idiosyncratic_component = round2 (idio ! i) \<rparr>)
          (enumerate 0 hybrid_hospitals)))"

definition hybrid_rows :: "(nat \<Rightarrow> hybrid_draw) \<Rightarrow> hybrid_row list" where
  "hybrid_rows rng =
     concat (map (hybrid_sample_rows rng)
       (List.product (enumerate 0 hybrid_scenarios) [0..<NUM_CONTINUOUS_SAMPLES_PER_SCENARIO]))"

text \<open>The scenario_id and scenario_probability columns of the table.\<close>

definition hybrid_columns :: "hybrid_row list \<Rightarrow> (string \<times> real) list" where
  "hybrid_columns df = map (\<lambda>r. (h_scenario_id r, h_scenario_probability r)) df"

text \<open>The two columns of the rows of one iteration of the hybrid sample loop.\<close>

definition hybrid_key ::
  "(nat \<times> string \<times> string \<times> int list \<times> real) \<times> nat \<Rightarrow> string \<times> real" where
  "hybrid_key = (\<lambda>((pos, sid, dtype, demands, probability), sample_idx).
     (sid @ ''_'' @ zero_pad 3 sample_idx,
      probability / real NUM_CONTINUOUS_SAMPLES_PER_SCENARIO))"

text \<open>
  The value of a string of decimal digits (Python's \<^verbatim>\<open>int(s)\<close> on such a string). It is
  used below to show that the formatted scenario identifiers are pairwise different.
\<close>

definition digit_value :: "char \<Rightarrow> nat" where
  "digit_value c = of_char c - 48"

definition decimal_value :: "string \<Rightarrow> nat" where
  "decimal_value s = foldl (\<lambda>a c. 10 * a + digit_value c) 0 s"

section \<open>The continuous correlated sampler (continuous_dataset.py)\<close>

definition NUM_SCENARIOS :: int where
  "NUM_SCENARIOS = 1000"

definition INCLUDE_BASELINE_SCENARIO :: bool where
  "INCLUDE_BASELINE_SCENARIO = True"

definition BASELINE_WEIGHT :: real where
  "BASELINE_WEIGHT = 1.0"

definition BASELINE_PROBABILITY_SHARE :: "real option" where
  "BASELINE_PROBABILITY_SHARE = Some 0.35"

definition BASELINE_DEMAND_SCALE :: real where
  "BASELINE_DEMAND_SCALE = 0.35"

definition BASELINE_MIN_DEMAND :: "real list" where
  "BASELINE_MIN_DEMAND = [6.0, 4.5, 3.5]"

record hospital_info =
  info_name :: string
  info_capacity :: int
  info_alloc_cost :: real

definition hospitals :: "(string \<times> hospital_info) list" where
  "hospitals =
     [(''H1'', \<lparr>info_name = ''Central Hospital'', info_capacity = 250, info_alloc_cost = 2.0\<rparr>),
      (''H2'', \<lparr>info_name = ''North Clinic'', info_capacity = 180, info_alloc_cost = 2.2\<rparr>),
      (''H3'', \<lparr>info_name = ''South Medical Center'', info_capacity = 150,
               info_alloc_cost = 1.8\<rparr>)]"

definition baseline_demand :: "real list" where
  "baseline_demand = [20.0, 15.0, 12.0]"

definition severity_sensitivity :: "real list" where
  "severity_sensitivity = [1.00, 0.85, 0.70]"

record hazard =
  hz_hazard_type :: string
  weight :: real
  lognorm_mu :: real
  lognorm_sigma :: real
  region_scale :: real
  idio_sigma :: real

definition hazard_catalog :: "hazard list" where
  "hazard_catalog =
     [\<lparr>hz_hazard_type = ''seasonal_flu'', weight = 0.45, lognorm_mu = 2.1,
       lognorm_sigma = 0.25, region_scale = 0.8, idio_sigma = 6.0\<rparr>,
      \<lparr>hz_hazard_type = ''coastal_storm'', weight = 0.25, lognorm_mu = 2.5,
       lognorm_sigma = 0.28, region_scale = 1.0, idio_sigma = 7.5\<rparr>,
      \<lparr>hz_hazard_type = ''earthquake'', weight = 0.15, lognorm_mu = 2.9,
       lognorm_sigma = 0.35, region_scale = 1.3, idio_sigma = 9.0\<rparr>,
      \<lparr>hz_hazard_type = ''pandemic_wave'', weight = 0.15, lognorm_mu = 3.2,
       lognorm_sigma = 0.32, region_scale = 1.5, idio_sigma = 11.0\<rparr>]"

record ScenarioDraw =
  scenario_id :: string
  hazard_type :: string
  severity_score :: real
  global_severity :: real
  regional_component :: "real list"
  idiosyncratic_component :: "real list"
  raw_probability_weight :: real
  demand_vector :: "real list"

definition build_baseline_draw :: ScenarioDraw where
  "build_baseline_draw =
     (let zero_component = replicate (length hospitals) 0;
          calm_demand = map2 max (map (\<lambda>d. d * BASELINE_DEMAND_SCALE) baseline_demand)
                          BASELINE_MIN_DEMAND
      in \<lparr> scenario_id = ''CSBASE'',
            hazard_type = ''no_event'',
            severity_score = 0.0,
            global_severity = 0.0,
            regional_component = zero_component,
            idiosyncratic_component = zero_component,
            raw_probability_weight = BASELINE_WEIGHT,
            demand_vector = calm_demand \<rparr>)"

text \<open>
  What the generator returns in one iteration of the sampling loop: the index chosen by
  \<^verbatim>\<open>RNG.choice\<close>, the lognormal severity, the multivariate normal vector and the vector
  of independent normals. \<^verbatim>\<open>choice\<close> returns an index of the catalogue, a lognormal
  variate is not negative, and both vectors have one entry per hospital.
\<close>

record rng_draw =
  rng_choice :: nat
  rng_lognormal :: real
  rng_multivariate_normal :: "real list"
  rng_normal :: "real list"

definition rng_ok :: "(nat \<Rightarrow> rng_draw) \<Rightarrow> bool" where
  "rng_ok rng \<longleftrightarrow>
     (\<forall>idx. rng_choice (rng idx) < length hazard_catalog \<and>
            0 \<le> rng_lognormal (rng idx) \<and>
            length (rng_multivariate_normal (rng idx)) = length hospitals \<and>
            length (rng_normal (rng idx)) = length hospitals)"

text \<open>\<^verbatim>\<open>np.log1p\<close>\<close>

definition log1p :: "real \<Rightarrow> real" where
  "log1p x = ln (1 + x)"

text \<open>The body of the sampling loop, for iteration \<open>idx\<close>.\<close>

definition random_draw :: "(nat \<Rightarrow> rng_draw) \<Rightarrow> nat \<Rightarrow> ScenarioDraw" where
  "random_draw rng idx =
     (let hazard = hazard_catalog ! rng_choice (rng idx);
          global_severity = rng_lognormal (rng idx);
          severity_score = log1p global_severity;
          regional = rng_multivariate_normal (rng idx);
          idiosyncratic = rng_normal (rng idx);
          demand = clip0 (vadd (vadd (vadd baseline_demand
                      (map (\<lambda>s. s * global_severity) severity_sensitivity)) regional)
                      idiosyncratic);
          probability_weight = weight hazard * (severity_score + 1 / 10 ^ 6)
      in \<lparr> scenario_id = ''CS'' @ zero_pad 4 idx,
            hazard_type = hz_hazard_type hazard,
            severity_score = severity_score,
            global_severity = global_severity,
            regional_component = regional,
            idiosyncratic_component = idiosyncratic,
            raw_probability_weight = probability_weight,
            demand_vector = demand \<rparr>)"

definition sample_scenarios ::
  "(nat \<Rightarrow> rng_draw) \<Rightarrow> int \<Rightarrow> bool \<Rightarrow> error + ScenarioDraw list" where
  "sample_scenarios rng num_scenarios include_baseline =
     (let num_random_draws = num_scenarios - (if include_baseline then 1 else 0)
      in if num_random_draws < 0 then Inl ValueError
         else Inr ((if include_baseline then [build_baseline_draw] else []) @
                   map (random_draw rng) [0..<nat num_random_draws]))"

record continuous_row =
  c_scenario_id :: string
  c_scenario_probability :: real
  c_disaster_type :: string
  c_severity_score :: real
  c_hospital_id :: string
  c_hospital_name :: string
  c_capacity_beds :: int
  c_allocation_cost_per_unit :: real
  c_global_severity :: real
  c_regional_component :: real
  c_idiosyncratic_component :: real
  c_demand :: real
  c_shortage_penalty_per_unit :: real

text \<open>
  The probabilities of \<^verbatim>\<open>build_dataframe\<close>. Dividing a non-empty weight array by a
  zero sum gives an array of NaN or infinite entries in numpy; this development does
  not follow such a table further, and the result is \<open>None\<close> then.
\<close>

definition normalized :: "real list \<Rightarrow> real list option" where
  "normalized weights =
     (if weights \<noteq> [] \<and> sum_list weights = 0 then None
      else Some (map (\<lambda>w. w / sum_list weights) weights))"

definition reserve_baseline :: "ScenarioDraw list \<Rightarrow> real list \<Rightarrow> real list" where
  "reserve_baseline draws probabilities =
     (case (INCLUDE_BASELINE_SCENARIO, BASELINE_PROBABILITY_SHARE) of
        (True, Some configured_share) \<Rightarrow>
          (let baseline_indices =
                 map fst (filter (\<lambda>(idx, draw). scenario_id draw = ''CSBASE'')
                            (enumerate 0 draws))
           in case baseline_indices of
                [] \<Rightarrow> probabilities
              | baseline_idx # _ \<Rightarrow>
                 (let share = min (max configured_share 0.0) 0.95;
                      baseline_current = probabilities ! baseline_idx;
                      remaining_mass = 1.0 - share;
                      residual = 1.0 - baseline_current
                  in if residual \<le> 0
                     then (map (\<lambda>p. 0.0) probabilities)[baseline_idx := 1.0]
                     else (map (\<lambda>p. p * (remaining_mass / residual)) probabilities)
                            [baseline_idx := share]))
      | _ \<Rightarrow> probabilities)"

definition probabilities_of :: "ScenarioDraw list \<Rightarrow> real list option" where
  "probabilities_of draws =
     map_option (reserve_baseline draws) (normalized (map raw_probability_weight draws))"

definition draw_rows :: "ScenarioDraw \<times> real \<Rightarrow> continuous_row list" where
  "draw_rows = (\<lambda>(draw, probability).
     map (\<lambda>(hospital_idx, (hid, info)).
           \<lparr> c_scenario_id = scenario_id draw,
             c_scenario_probability = probability,
             c_disaster_type = hazard_type draw,
             c_severity_score = severity_score draw,
             c_hospital_id = hid,
             c_hospital_name = info_name info,
             c_capacity_beds = info_capacity info,
             c_allocation_cost_per_unit = info_alloc_cost info,
             c_global_severity = global_severity draw,
             c_regional_component = regional_component draw ! hospital_idx,
             c_idiosyncratic_component = idiosyncratic_component draw ! hospital_idx,
             c_demand = round2 (demand_vector draw ! hospital_idx),
             c_shortage_penalty_per_unit = 8.0 \<rparr>)
         (enumerate 0 hospitals))"

definition build_dataframe :: "ScenarioDraw list \<Rightarrow> continuous_row list option" where
  "build_dataframe draws =
     map_option (\<lambda>probabilities. concat (map draw_rows (zip draws probabilities)))
       (probabilities_of draws)"

text \<open>\<^verbatim>\<open>main\<close>, up to the files it writes: an exception of the sampling ends the run.\<close>

definition main :: "(nat \<Rightarrow> rng_draw) \<Rightarrow> error + continuous_row list option" where
  "main rng =
     (case sample_scenarios rng NUM_SCENARIOS INCLUDE_BASELINE_SCENARIO of
        Inl e \<Rightarrow> Inl e
      | Inr draws \<Rightarrow> Inr (build_dataframe draws))"

text \<open>
  \<^verbatim>\<open>summarize_dataset\<close> projects the table to its scenario_id and scenario_probability
  columns, drops the duplicate rows and sums the probabilities that remain.
\<close>

definition continuous_columns :: "continuous_row list \<Rightarrow> (string \<times> real) list" where
  "continuous_columns df = map (\<lambda>r. (c_scenario_id r, c_scenario_probability r)) df"

section \<open>Example inputs\<close>

text \<open>Two small input tables for the uncertainty-set builder and the rows it emits on them.\<close>

definition example_df :: dataframe where
  "example_df =
     [\<lparr>hospital_id = ''H1'', demand = 0\<rparr>, \<lparr>hospital_id = ''H2'', demand = 0\<rparr>,
      \<lparr>hospital_id = ''H3'', demand = 5\<rparr>,
      \<lparr>hospital_id = ''H1'', demand = 0\<rparr>, \<lparr>hospital_id = ''H2'', demand = 8\<rparr>,
      \<lparr>hospital_id = ''H3'', demand = 5\<rparr>,
      \<lparr>hospital_id = ''H1'', demand = 0\<rparr>, \<lparr>hospital_id = ''H2'', demand = 16\<rparr>,
      \<lparr>hospital_id = ''H1'', demand = 1\<rparr>]"

definition mk_row :: "string \<Rightarrow> real \<Rightarrow> string \<Rightarrow> int \<Rightarrow> int \<Rightarrow> interval_row" where
  "mk_row t l h lo up =
     \<lparr>uncertainty_type = t, level = l, row_hospital = h, lower_bound = lo, upper_bound = up\<rparr>"

definition example_rows :: "interval_row list" where
  "example_rows =
     [mk_row ''minmax_box'' 1 ''H1'' 0 1, mk_row ''minmax_box'' 1 ''H2'' 0 16,
      mk_row ''minmax_box'' 1 ''H3'' 5 5,
      mk_row ''minmax_box'' 0.75 ''H1'' 0 1, mk_row ''minmax_box'' 0.75 ''H2'' 2 14,
      mk_row ''minmax_box'' 0.75 ''H3'' 5 5,
      mk_row ''minmax_box'' 0.5 ''H1'' 0 1, mk_row ''minmax_box'' 0.5 ''H2'' 4 12,
      mk_row ''minmax_box'' 0.5 ''H3'' 5 5,
      mk_row ''ev_box'' 0 ''H1'' 0 1, mk_row ''ev_box'' 0 ''H2'' 8 8,
      mk_row ''ev_box'' 0 ''H3'' 5 5,
      mk_row ''ev_box'' 1 ''H1'' 0 1, mk_row ''ev_box'' 1 ''H2'' 0 16,
      mk_row ''ev_box'' 1 ''H3'' 5 5,
      mk_row ''ev_box'' 2 ''H1'' 0 2, mk_row ''ev_box'' 2 ''H2'' 0 24,
      mk_row ''ev_box'' 2 ''H3'' 5 5]"



text \<open>Outputs of the random generator for the continuous sampler.\<close>

definition example_rng :: "nat \<Rightarrow> rng_draw" where
  "example_rng idx =
     \<lparr> rng_choice = idx mod 4, rng_lognormal = 1,
       rng_multivariate_normal = [- 30, 2, 1], rng_normal = [0, - 1, 3] \<rparr>"

text \<open>Outputs of the random generator for the hybrid sampler.\<close>

definition example_hybrid_rng :: "nat \<Rightarrow> hybrid_draw" where
  "example_hybrid_rng call = \<lparr> hy_regional = [- 30, 2, 1], hy_idio = [0, - 1, 3] \<rparr>"

section \<open>Properties of the uncertainty-set builder\<close>

subsection \<open>Loops that may raise\<close>

lemma traverse_Cons_Inr:
  "traverse f (x # xs) = Inr zs \<longleftrightarrow>
     (\<exists>y ys. f x = Inr y \<and> traverse f xs = Inr ys \<and> zs = y # ys)"
  by (cases "f x"; cases "traverse f xs") auto

lemma traverse_total:
  "(\<And>x. x \<in> set xs \<Longrightarrow> \<exists>y. f x = Inr y) \<Longrightarrow> \<exists>ys. traverse f xs = Inr ys"
proof (induction xs)
  case Nil
  show ?case by simp
next
  case (Cons x xs)
  then obtain y where "f x = Inr y" by auto
  moreover from Cons obtain ys where "traverse f xs = Inr ys" by auto
  ultimately show ?case by simp
qed

lemma traverse_out:
  "traverse f xs = Inr ys \<Longrightarrow> y \<in> set ys \<Longrightarrow> \<exists>x\<in>set xs. f x = Inr y"
proof (induction xs arbitrary: ys)
  case Nil
  then show ?case by simp
next
  case (Cons x xs)
  from Cons.prems(1) obtain z zs where
    z: "f x = Inr z" "traverse f xs = Inr zs" "ys = z # zs"
    unfolding traverse_Cons_Inr by blast
  with Cons.prems(2) consider "y = z" | "y \<in> set zs" by auto
  then show ?case
  proof cases
    case 1
    with z show ?thesis by simp
  next
    case 2
    from Cons.IH[OF z(2) 2] show ?thesis by auto
  qed
qed

lemma traverse_in:
  "traverse f xs = Inr ys \<Longrightarrow> x \<in> set xs \<Longrightarrow> \<exists>y\<in>set ys. f x = Inr y"
proof (induction xs arbitrary: ys)
  case Nil
  then show ?case by simp
next
  case (Cons a xs)
  from Cons.prems(1) obtain z zs where
    z: "f a = Inr z" "traverse f xs = Inr zs" "ys = z # zs"
    unfolding traverse_Cons_Inr by blast
  from Cons.prems(2) consider "x = a" | "x \<in> set xs" by auto
  then show ?case
  proof cases
    case 1
    with z show ?thesis by simp
  next
    case 2
    from Cons.IH[OF z(2) 2] z(3) show ?thesis by auto
  qed
qed

lemma traverse_length: "traverse f xs = Inr ys \<Longrightarrow> length ys = length xs"
proof (induction xs arbitrary: ys)
  case Nil
  then show ?case by simp
next
  case (Cons a xs)
  from Cons.prems(1) obtain z zs where
    z: "f a = Inr z" "traverse f xs = Inr zs" "ys = z # zs"
    unfolding traverse_Cons_Inr by blast
  with Cons.IH show ?case by simp
qed

subsection \<open>The rows that a successful run emits\<close>

lemma minmax_box_Inr:
  "minmax_box df (alpha, hid) = Inr r \<longleftrightarrow>
     demands_of df hid \<noteq> [] \<and>
     r = \<lparr> uncertainty_type = ''minmax_box'', level = alpha, row_hospital = hid,
           lower_bound = \<lfloor>Min (set (demands_of df hid)) +
              (Max (set (demands_of df hid)) - Min (set (demands_of df hid))) * (1 - alpha) / 2\<rfloor>,
           upper_bound = \<lceil>Max (set (demands_of df hid)) -
              (Max (set (demands_of df hid)) - Min (set (demands_of df hid))) * (1 - alpha) / 2\<rceil> \<rparr>"
  by (auto simp: minmax_box_def stats_def series_min_def series_max_def Let_def)

lemma ev_box_Inr:
  "ev_box df (k, hid) = Inr r \<longleftrightarrow>
     2 \<le> length (demands_of df hid) \<and>
     r = \<lparr> uncertainty_type = ''ev_box'', level = of_int k, row_hospital = hid,
           lower_bound = \<lfloor>max 0 (mean_of (demands_of df hid) - of_int k * std_of (demands_of df hid))\<rfloor>,
           upper_bound = \<lceil>mean_of (demands_of df hid) + of_int k * std_of (demands_of df hid)\<rceil> \<rparr>"
  by (auto simp: ev_box_def stats_def series_mean_def series_std_def Let_def max_def)

lemma build_sets_Inr:
  "build_sets alphas ks df = Inr rows \<longleftrightarrow>
     (\<exists>rows1 rows2. traverse (minmax_box df) (List.product alphas HOSPITALS) = Inr rows1 \<and>
        traverse (ev_box df) (List.product ks HOSPITALS) = Inr rows2 \<and> rows = rows1 @ rows2)"
  by (auto simp: build_sets_def split: sum.splits)

lemma build_sets_row:
  assumes "build_sets alphas ks df = Inr rows" "r \<in> set rows"
  shows "(\<exists>alpha\<in>set alphas. \<exists>hid\<in>set HOSPITALS. minmax_box df (alpha, hid) = Inr r) \<or>
         (\<exists>k\<in>set ks. \<exists>hid\<in>set HOSPITALS. ev_box df (k, hid) = Inr r)"
proof -
  from assms(1) obtain rows1 rows2 where
    t1: "traverse (minmax_box df) (List.product alphas HOSPITALS) = Inr rows1" and
    t2: "traverse (ev_box df) (List.product ks HOSPITALS) = Inr rows2" and
    r: "rows = rows1 @ rows2"
    unfolding build_sets_Inr by blast
  from assms(2) r consider "r \<in> set rows1" | "r \<in> set rows2" by auto
  then show ?thesis
  proof cases
    case 1
    from traverse_out[OF t1 1] show ?thesis by auto
  next
    case 2
    from traverse_out[OF t2 2] show ?thesis by auto
  qed
qed

lemma build_sets_has_minmax:
  assumes "build_sets alphas ks df = Inr rows" "alpha \<in> set alphas" "hid \<in> set HOSPITALS"
  shows "\<exists>r\<in>set rows. minmax_box df (alpha, hid) = Inr r"
proof -
  from assms(1) obtain rows1 rows2 where
    t1: "traverse (minmax_box df) (List.product alphas HOSPITALS) = Inr rows1" and
    r: "rows = rows1 @ rows2"
    unfolding build_sets_Inr by blast
  have "(alpha, hid) \<in> set (List.product alphas HOSPITALS)" using assms by simp
  from traverse_in[OF t1 this] r show ?thesis by auto
qed

lemma build_sets_has_ev:
  assumes "build_sets alphas ks df = Inr rows" "k \<in> set ks" "hid \<in> set HOSPITALS"
  shows "\<exists>r\<in>set rows. ev_box df (k, hid) = Inr r"
proof -
  from assms(1) obtain rows1 rows2 where
    t2: "traverse (ev_box df) (List.product ks HOSPITALS) = Inr rows2" and
    r: "rows = rows1 @ rows2"
    unfolding build_sets_Inr by blast
  have "(k, hid) \<in> set (List.product ks HOSPITALS)" using assms by simp
  from traverse_in[OF t2 this] r show ?thesis by auto
qed

lemma build_sets_total:
  assumes "\<And>hid. hid \<in> set HOSPITALS \<Longrightarrow> 2 \<le> length (demands_of df hid)"
  shows "\<exists>rows. build_sets alphas ks df = Inr rows"
proof -
  have "\<exists>ys. traverse (minmax_box df) (List.product alphas HOSPITALS) = Inr ys"
  proof (rule traverse_total)
    fix x assume "x \<in> set (List.product alphas HOSPITALS)"
    then obtain a h where x: "x = (a, h)" and h: "h \<in> set HOSPITALS" by auto
    from assms[OF h] have "demands_of df h \<noteq> []" by auto
    then show "\<exists>y. minmax_box df x = Inr y" unfolding x minmax_box_Inr by simp
  qed
  moreover have "\<exists>ys. traverse (ev_box df) (List.product ks HOSPITALS) = Inr ys"
  proof (rule traverse_total)
    fix x assume "x \<in> set (List.product ks HOSPITALS)"
    then obtain a h where x: "x = (a, h)" and h: "h \<in> set HOSPITALS" by auto
    from assms[OF h] show "\<exists>y. ev_box df x = Inr y" unfolding x ev_box_Inr by simp
  qed
  ultimately show ?thesis unfolding build_sets_Inr by blast
qed

lemma example_demands:
  "demands_of example_df ''H1'' = [0, 0, 0, 1]"
  "demands_of example_df ''H2'' = [0, 8, 16]"
  "demands_of example_df ''H3'' = [5, 5]"
  by (simp_all add: demands_of_def example_df_def)

lemma sqrt_64: "sqrt 64 = 8"
proof -
  have "sqrt ((8::real)\<^sup>2) = 8" by simp
  then show ?thesis by simp
qed

lemma example_stats:
  "stats example_df ''H1'' =
     \<lparr>stat_min = Some 0, stat_max = Some 1, stat_mean = Some (1/4), stat_std = Some (1/2)\<rparr>"
  "stats example_df ''H2'' =
     \<lparr>stat_min = Some 0, stat_max = Some 16, stat_mean = Some 8, stat_std = Some 8\<rparr>"
  "stats example_df ''H3'' =
     \<lparr>stat_min = Some 5, stat_max = Some 5, stat_mean = Some 5, stat_std = Some 0\<rparr>"
  by (simp_all add: stats_def example_demands series_min_def series_max_def series_mean_def
      series_std_def mean_of_def std_of_def power2_eq_square real_sqrt_divide sqrt_64)

lemma example_minmax:
  "traverse (minmax_box example_df) (List.product MINMAX_BOX_LEVELS HOSPITALS) =
     Inr (take 9 example_rows)"
  by (simp add: MINMAX_BOX_LEVELS_def HOSPITALS_def minmax_box_def example_stats
      example_rows_def mk_row_def ceiling_eq_iff floor_eq_iff)

lemma example_ev:
  "traverse (ev_box example_df) (List.product EV_BOX_LEVELS HOSPITALS) =
     Inr (drop 9 example_rows)"
  by (simp add: EV_BOX_LEVELS_def HOSPITALS_def ev_box_def example_stats
      example_rows_def mk_row_def ceiling_eq_iff floor_eq_iff)

lemma example_run: "uncertainty_sets example_df = Inr example_rows"
proof -
  have "take 9 example_rows @ drop 9 example_rows = example_rows" by (rule append_take_drop_id)
  then show ?thesis
    by (simp only: uncertainty_sets_def build_sets_def example_minmax example_ev sum.case)
qed



lemma minmax_row_fields:
  assumes "minmax_box df (alpha, hid) = Inr r"
  shows "uncertainty_type r = ''minmax_box''" "level r = alpha" "row_hospital r = hid"
    "demands_of df hid \<noteq> []"
    "lower_bound r = \<lfloor>Min (set (demands_of df hid)) +
        (Max (set (demands_of df hid)) - Min (set (demands_of df hid))) * (1 - alpha) / 2\<rfloor>"
    "upper_bound r = \<lceil>Max (set (demands_of df hid)) -
        (Max (set (demands_of df hid)) - Min (set (demands_of df hid))) * (1 - alpha) / 2\<rceil>"
  using assms unfolding minmax_box_Inr by simp_all

lemma ev_row_fields:
  assumes "ev_box df (k, hid) = Inr r"
  shows "uncertainty_type r = ''ev_box''" "level r = of_int k" "row_hospital r = hid"
    "2 \<le> length (demands_of df hid)"
    "lower_bound r =
       \<lfloor>max 0 (mean_of (demands_of df hid) - of_int k * std_of (demands_of df hid))\<rfloor>"
    "upper_bound r =
       \<lceil>mean_of (demands_of df hid) + of_int k * std_of (demands_of df hid)\<rceil>"
  using assms unfolding ev_box_Inr by simp_all

lemma type_names_differ: "''minmax_box'' \<noteq> ''ev_box''"
  by simp

lemma example_rows_nth:
  "example_rows ! 1 = mk_row ''minmax_box'' 1 ''H2'' 0 16"
  "example_rows ! 7 = mk_row ''minmax_box'' 0.5 ''H2'' 4 12"
  "example_rows ! 9 = mk_row ''ev_box'' 0 ''H1'' 0 1"
  "example_rows ! 10 = mk_row ''ev_box'' 0 ''H2'' 8 8"
  "example_rows ! 16 = mk_row ''ev_box'' 2 ''H2'' 0 24"
  by (simp_all add: example_rows_def)

lemma example_rows_mem:
  "example_rows ! 1 \<in> set example_rows"
  "example_rows ! 7 \<in> set example_rows"
  "example_rows ! 9 \<in> set example_rows"
  "example_rows ! 10 \<in> set example_rows"
  "example_rows ! 16 \<in> set example_rows"
  by (simp_all add: example_rows_def)

lemma mk_row_fields:
  "uncertainty_type (mk_row t l h lo up) = t" "level (mk_row t l h lo up) = l"
  "row_hospital (mk_row t l h lo up) = h" "lower_bound (mk_row t l h lo up) = lo"
  "upper_bound (mk_row t l h lo up) = up"
  by (simp_all add: mk_row_def)

text \<open>
  Claim C5: in a run that succeeds, every hospital has a \<open>minmax_box\<close> row at level 1.0,
  and the bounds of such a row are the floor of the hospital's minimum demand and the
  ceiling of its maximum demand.
\<close>

theorem minmax_box_level_one:
  assumes "uncertainty_sets df = Inr rows" and "hid \<in> set HOSPITALS"
  shows "demands_of df hid \<noteq> [] \<and>
         (\<exists>r\<in>set rows. uncertainty_type r = ''minmax_box'' \<and> level r = 1 \<and>
                        row_hospital r = hid) \<and>
         (\<forall>r\<in>set rows. uncertainty_type r = ''minmax_box'' \<and> level r = 1 \<and>
                        row_hospital r = hid \<longrightarrow>
            lower_bound r = \<lfloor>Min (set (demands_of df hid))\<rfloor> \<and>
            upper_bound r = \<lceil>Max (set (demands_of df hid))\<rceil>)"
proof -
  have run: "build_sets MINMAX_BOX_LEVELS EV_BOX_LEVELS df = Inr rows"
    using assms(1) by (simp add: uncertainty_sets_def)
  have "1 \<in> set MINMAX_BOX_LEVELS" by (simp add: MINMAX_BOX_LEVELS_def)
  from build_sets_has_minmax[OF run this assms(2)] obtain r0 where
    r0: "r0 \<in> set rows" "minmax_box df (1, hid) = Inr r0" by blast
  have ne: "demands_of df hid \<noteq> []" by (rule minmax_row_fields(4)[OF r0(2)])
  have ex: "\<exists>r\<in>set rows. uncertainty_type r = ''minmax_box'' \<and> level r = 1 \<and>
                        row_hospital r = hid"
    using r0 minmax_row_fields(1-3)[OF r0(2)] by blast
  have all: "lower_bound r = \<lfloor>Min (set (demands_of df hid))\<rfloor> \<and>
             upper_bound r = \<lceil>Max (set (demands_of df hid))\<rceil>"
    if r: "r \<in> set rows" and t: "uncertainty_type r = ''minmax_box''" and l: "level r = 1"
      and h: "row_hospital r = hid" for r
  proof -
    from build_sets_row[OF run r] show ?thesis
    proof
      assume "\<exists>alpha\<in>set MINMAX_BOX_LEVELS. \<exists>hid\<in>set HOSPITALS. minmax_box df (alpha, hid) = Inr r"
      then obtain a h' where m: "minmax_box df (a, h') = Inr r" by blast
      from minmax_row_fields(2,3)[OF m] l h have "a = 1" "h' = hid" by simp_all
      with minmax_row_fields(5,6)[OF m] show ?thesis by simp
    next
      assume "\<exists>k\<in>set EV_BOX_LEVELS. \<exists>hid\<in>set HOSPITALS. ev_box df (k, hid) = Inr r"
      then obtain k h' where e: "ev_box df (k, h') = Inr r" by blast
      from ev_row_fields(1)[OF e] t type_names_differ show ?thesis by simp
    qed
  qed
  from ne ex all show ?thesis by blast
qed

text \<open>The level-1.0 row of hospital H2 in the example: demands 0, 8, 16 and bounds 0, 16.\<close>

theorem minmax_box_level_one_witness:
  "uncertainty_sets example_df = Inr example_rows \<and> ''H2'' \<in> set HOSPITALS \<and>
   demands_of example_df ''H2'' = [0, 8, 16] \<and>
   example_rows ! 1 \<in> set example_rows \<and>
   example_rows ! 1 = mk_row ''minmax_box'' 1 ''H2'' 0 16 \<and>
   lower_bound (example_rows ! 1) = \<lfloor>Min (set (demands_of example_df ''H2''))\<rfloor> \<and>
   upper_bound (example_rows ! 1) = \<lceil>Max (set (demands_of example_df ''H2''))\<rceil>"
proof -
  have h: "''H2'' \<in> set HOSPITALS" by (simp add: HOSPITALS_def)
  have f: "uncertainty_type (example_rows ! 1) = ''minmax_box'' \<and> level (example_rows ! 1) = 1 \<and>
           row_hospital (example_rows ! 1) = ''H2''"
    unfolding example_rows_nth by (simp add: mk_row_fields)
  from minmax_box_level_one[OF example_run h] example_rows_mem(1) f
  have "lower_bound (example_rows ! 1) = \<lfloor>Min (set (demands_of example_df ''H2''))\<rfloor> \<and>
        upper_bound (example_rows ! 1) = \<lceil>Max (set (demands_of example_df ''H2''))\<rceil>"
    by blast
  with example_run h example_demands(2) example_rows_mem(1) example_rows_nth(1)
  show ?thesis by blast
qed


lemma ev_row_of_run:
  assumes "build_sets alphas ks df = Inr rows" "r \<in> set rows"
    "uncertainty_type r = ''ev_box''"
  shows "\<exists>k\<in>set ks. level r = of_int k \<and> row_hospital r \<in> set HOSPITALS \<and>
         ev_box df (k, row_hospital r) = Inr r"
proof -
  from build_sets_row[OF assms(1,2)] show ?thesis
  proof
    assume "\<exists>alpha\<in>set alphas. \<exists>hid\<in>set HOSPITALS. minmax_box df (alpha, hid) = Inr r"
    then obtain a h where m: "minmax_box df (a, h) = Inr r" by blast
    from minmax_row_fields(1)[OF m] assms(3) type_names_differ show ?thesis by simp
  next
    assume "\<exists>k\<in>set ks. \<exists>hid\<in>set HOSPITALS. ev_box df (k, hid) = Inr r"
    then obtain k h where e: "k \<in> set ks" "h \<in> set HOSPITALS" "ev_box df (k, h) = Inr r"
      by blast
    with ev_row_fields(2,3)[OF e(3)] show ?thesis by auto
  qed
qed










text \<open>
  Claim C8: in a run that succeeds there is an \<open>ev_box\<close> row for every hospital and every
  \<open>k\<close> of the EV levels, and the lower bound of every \<open>ev_box\<close> row is at least 0.
\<close>

theorem ev_box_lower_nonneg:
  assumes "uncertainty_sets df = Inr rows" and "k \<in> set EV_BOX_LEVELS"
    and "hid \<in> set HOSPITALS"
  shows "(\<exists>r\<in>set rows. uncertainty_type r = ''ev_box'' \<and> level r = of_int k \<and>
                        row_hospital r = hid) \<and>
         (\<forall>r\<in>set rows. uncertainty_type r = ''ev_box'' \<longrightarrow> 0 \<le> lower_bound r)"
proof -
  have run: "build_sets MINMAX_BOX_LEVELS EV_BOX_LEVELS df = Inr rows"
    using assms(1) by (simp add: uncertainty_sets_def)
  from build_sets_has_ev[OF run assms(2,3)] obtain r0 where
    r0: "r0 \<in> set rows" "ev_box df (k, hid) = Inr r0" by blast
  have ex: "\<exists>r\<in>set rows. uncertainty_type r = ''ev_box'' \<and> level r = of_int k \<and>
                        row_hospital r = hid"
    using r0(1) ev_row_fields(1-3)[OF r0(2)] by auto
  have all: "0 \<le> lower_bound r" if r: "r \<in> set rows" and t: "uncertainty_type r = ''ev_box''"
    for r
  proof -
    from ev_row_of_run[OF run r t] obtain j where
      j: "ev_box df (j, row_hospital r) = Inr r" by blast
    show ?thesis unfolding ev_row_fields(5)[OF j] by simp
  qed
  from ex all show ?thesis by blast
qed

text \<open>
  Hospital H2 of the example at \<open>k = 2\<close>: the mean 8 minus twice the standard deviation 8
  is negative, and the lower bound is 0.
\<close>

theorem ev_box_lower_nonneg_witness:
  "uncertainty_sets example_df = Inr example_rows \<and> 2 \<in> set EV_BOX_LEVELS \<and>
   ''H2'' \<in> set HOSPITALS \<and>
   mean_of (demands_of example_df ''H2'') - 2 * std_of (demands_of example_df ''H2'') < 0 \<and>
   example_rows ! 16 \<in> set example_rows \<and>
   example_rows ! 16 = mk_row ''ev_box'' 2 ''H2'' 0 24 \<and>
   0 \<le> lower_bound (example_rows ! 16)"
proof -
  have k: "2 \<in> set EV_BOX_LEVELS" by (simp add: EV_BOX_LEVELS_def)
  have h: "''H2'' \<in> set HOSPITALS" by (simp add: HOSPITALS_def)
  have neg: "mean_of (demands_of example_df ''H2'') - 2 * std_of (demands_of example_df ''H2'') < 0"
    by (simp add: example_demands mean_of_def std_of_def power2_eq_square sqrt_64)
  have f: "uncertainty_type (example_rows ! 16) = ''ev_box''"
    unfolding example_rows_nth by (simp add: mk_row_fields)
  from ev_box_lower_nonneg[OF example_run k h] example_rows_mem(5) f
  have "0 \<le> lower_bound (example_rows ! 16)" by blast
  with example_run k h neg example_rows_mem(5) example_rows_nth(5) show ?thesis by blast
qed




section \<open>Properties of the discrete dataset builder\<close>

lemma dataset_rows_value:
  "\<exists>rows. dataset_rows = Inr rows \<and> length rows = 24 \<and>
     map (\<lambda>r. (d_scenario_id r, d_hospital_id r)) rows =
       List.product (map fst dataset_scenarios) (map fst dataset_hospitals) \<and>
     map (\<lambda>r. (d_scenario_id r, d_scenario_probability r)) rows =
       concat (map (\<lambda>(sid, dtype, demands, probability). replicate 3 (sid, probability))
         dataset_scenarios) \<and>
     list_all (\<lambda>r. 0 < d_demand r) rows"
  by (simp add: dataset_rows_def dataset_row_of_def dataset_scenarios_def dataset_hospitals_def
      shortage_penalty_def eval_nat_numeral)

lemma dataset_probability_sum:
  "probability_sum (concat (map (\<lambda>(sid, dtype, demands, probability). replicate 3 (sid, probability))
         dataset_scenarios)) = 1"
  by (simp add: probability_sum_def drop_duplicates_def dataset_scenarios_def eval_nat_numeral)

lemma dataset_ids_distinct:
  "distinct (map fst (drop_duplicates (concat (map (\<lambda>(sid, dtype, demands, probability). replicate 3 (sid, probability))
         dataset_scenarios))))"
  by (simp add: drop_duplicates_def dataset_scenarios_def eval_nat_numeral)

text \<open>
  Claim C3: the catalogue has 8 scenarios and 3 hospitals, the builder returns 24 rows
  without raising, one row per (scenario, hospital) pair in loop order, and the 8
  probabilities 0.65, 0.05, 0.04, 0.05, 0.10, 0.05, 0.04, 0.02 sum to 1.
\<close>

theorem dataset_rows_shape:
  "length dataset_scenarios = 8 \<and> length dataset_hospitals = 3 \<and>
   (\<exists>rows. dataset_rows = Inr rows \<and> length rows = 24 \<and>
      map (\<lambda>r. (d_scenario_id r, d_hospital_id r)) rows =
        List.product (map fst dataset_scenarios) (map fst dataset_hospitals)) \<and>
   map (\<lambda>(sid, dtype, demands, probability). probability) dataset_scenarios =
     [0.65, 0.05, 0.04, 0.05, 0.10, 0.05, 0.04, 0.02] \<and>
   sum_list (map (\<lambda>(sid, dtype, demands, probability). probability) dataset_scenarios) = 1"
proof -
  have "length dataset_scenarios = 8" "length dataset_hospitals = 3"
    by (simp_all add: dataset_scenarios_def dataset_hospitals_def)
  moreover have "map (\<lambda>(sid, dtype, demands, probability). probability) dataset_scenarios =
     [0.65, 0.05, 0.04, 0.05, 0.10, 0.05, 0.04, 0.02]"
    by (simp add: dataset_scenarios_def)
  moreover have "sum_list (map (\<lambda>(sid, dtype, demands, probability). probability)
      dataset_scenarios) = 1"
    by (simp add: dataset_scenarios_def)
  ultimately show ?thesis using dataset_rows_value by blast
qed

section \<open>Properties shared by the generators\<close>

subsection \<open>Formatted identifiers\<close>

lemma digit_value_digit_char: "d < 10 \<Longrightarrow> digit_value (digit_char d) = d"
  by (simp add: digit_value_def digit_char_def)

lemma decimal_value_snoc:
  "decimal_value (s @ [c]) = 10 * decimal_value s + digit_value c"
  by (simp add: decimal_value_def)

lemma decimal_value_digits: "decimal_value (digits n) = n"
proof (induction n rule: digits.induct)
  case (1 n)
  show ?case
  proof (cases "n < 10")
    case True
    then show ?thesis
      by (subst digits.simps) (simp add: decimal_value_def digit_value_digit_char)
  next
    case False
    with 1 have "decimal_value (digits (n div 10)) = n div 10" by simp
    with False show ?thesis
      by (subst digits.simps) (simp add: decimal_value_snoc digit_value_digit_char)
  qed
qed

lemma decimal_value_zeros:
  "decimal_value (replicate k CHR ''0'' @ s) = decimal_value s"
proof -
  have "foldl (\<lambda>a c. 10 * a + digit_value c) 0 (replicate k CHR ''0'') = 0"
    by (induction k) (simp_all add: digit_value_def)
  then show ?thesis by (simp add: decimal_value_def)
qed

lemma decimal_value_zero_pad: "decimal_value (zero_pad w n) = n"
  by (simp add: zero_pad_def decimal_value_zeros decimal_value_digits)

lemma zero_pad_inject: "zero_pad w n = zero_pad w m \<Longrightarrow> n = m"
  by (metis decimal_value_zero_pad)

lemma digit_char_not_B: "d < 10 \<Longrightarrow> digit_char d \<noteq> CHR ''B''"
proof
  assume d: "d < 10" and "digit_char d = CHR ''B''"
  then have "digit_value (digit_char d) = digit_value CHR ''B''" by simp
  with d show False by (simp add: digit_value_digit_char) (simp add: digit_value_def)
qed

lemma digits_no_B: "CHR ''B'' \<notin> set (digits n)"
proof (induction n rule: digits.induct)
  case (1 n)
  show ?case
  proof (cases "n < 10")
    case True
    then show ?thesis by (subst digits.simps) (simp add: digit_char_not_B[symmetric])
  next
    case False
    with 1 have "CHR ''B'' \<notin> set (digits (n div 10))" by simp
    moreover have "digit_char (n mod 10) \<noteq> CHR ''B''" by (rule digit_char_not_B) simp
    ultimately show ?thesis using False by (subst digits.simps) auto
  qed
qed

lemma zero_pad_no_B: "CHR ''B'' \<notin> set (zero_pad w n)"
  by (simp add: zero_pad_def digits_no_B)

lemma zero_pad_not_BASE: "zero_pad w n \<noteq> ''BASE''"
proof
  assume "zero_pad w n = ''BASE''"
  then have "CHR ''B'' \<in> set (zero_pad w n)" by simp
  with zero_pad_no_B show False by blast
qed

subsection \<open>Dropping duplicate rows\<close>

lemma remdups_replicate_append:
  "0 < k \<Longrightarrow> remdups (replicate k z @ zs) = remdups (z # zs)"
proof (induction k)
  case 0
  then show ?case by simp
next
  case (Suc k)
  show ?case
  proof (cases "k = 0")
    case True
    then show ?thesis by simp
  next
    case False
    with Suc.IH have "remdups (replicate k z @ zs) = remdups (z # zs)" by simp
    moreover from False have "z \<in> set (replicate k z @ zs)" by simp
    ultimately show ?thesis by simp
  qed
qed

lemma remdups_concat_replicate:
  "0 < k \<Longrightarrow> remdups (concat (map (replicate k) zs)) = remdups zs"
proof (induction zs)
  case Nil
  show ?case by simp
next
  case (Cons z zs)
  have "set (concat (map (replicate k) zs)) = set zs" using Cons.prems by auto
  with Cons show ?case by (simp add: remdups_replicate_append)
qed

lemma rev_concat_replicate:
  "rev (concat (map (replicate k) zs)) = concat (map (replicate k) (rev zs))"
  by (induction zs) simp_all

lemma drop_duplicates_replicate:
  assumes "0 < k" "distinct ys"
  shows "drop_duplicates (concat (map (replicate k) ys)) = ys"
proof -
  have "remdups (rev (concat (map (replicate k) ys))) = remdups (rev ys)"
    unfolding rev_concat_replicate by (rule remdups_concat_replicate[OF assms(1)])
  also have "\<dots> = rev ys" using assms(2) by (simp add: distinct_remdups_id)
  finally show ?thesis by (simp add: drop_duplicates_def)
qed

lemma probability_sum_replicate:
  assumes "0 < k" "distinct (map fst ys)"
  shows "probability_sum (concat (map (replicate k) ys)) = sum_list (map snd ys)"
    and "distinct (map fst (drop_duplicates (concat (map (replicate k) ys))))"
proof -
  from assms(2) have "distinct ys" by (simp add: distinct_map)
  from drop_duplicates_replicate[OF assms(1) this]
  show "probability_sum (concat (map (replicate k) ys)) = sum_list (map snd ys)"
    and "distinct (map fst (drop_duplicates (concat (map (replicate k) ys))))"
    using assms(2) by (simp_all add: probability_sum_def)
qed

subsection \<open>Rounding\<close>





section \<open>Properties of the continuous sampler\<close>

subsection \<open>The input validation of the sampling\<close>


lemma sample_scenarios_Inr:
  "sample_scenarios rng n b = Inr draws \<longleftrightarrow>
     0 \<le> n - (if b then 1 else 0) \<and>
     draws = (if b then [build_baseline_draw] else []) @
             map (random_draw rng) [0..<nat (n - (if b then 1 else 0))]"
  by (auto simp: sample_scenarios_def Let_def)

subsection \<open>The draws\<close>

lemma hazard_weight_pos: "c < length hazard_catalog \<Longrightarrow> 0 < weight (hazard_catalog ! c)"
proof -
  have "\<forall>h\<in>set hazard_catalog. 0 < weight h" by (simp add: hazard_catalog_def)
  then show "c < length hazard_catalog \<Longrightarrow> 0 < weight (hazard_catalog ! c)"
    using nth_mem by blast
qed

lemma random_draw_weight_pos:
  assumes "rng_ok rng"
  shows "0 < raw_probability_weight (random_draw rng idx)"
proof -
  from assms have c: "rng_choice (rng idx) < length hazard_catalog"
    and g: "0 \<le> rng_lognormal (rng idx)" by (simp_all add: rng_ok_def)
  from g have "0 \<le> log1p (rng_lognormal (rng idx))"
    unfolding log1p_def by (intro ln_ge_zero) simp
  then have "0 < log1p (rng_lognormal (rng idx)) + 1 / 10 ^ 6" by simp
  with hazard_weight_pos[OF c] show ?thesis
    by (simp add: random_draw_def Let_def)
qed

lemma random_draw_id: "scenario_id (random_draw rng idx) = ''CS'' @ zero_pad 4 idx"
  by (simp add: random_draw_def Let_def)

lemma random_draw_not_baseline: "scenario_id (random_draw rng idx) \<noteq> ''CSBASE''"
  using zero_pad_not_BASE[of 4 idx] by (simp add: random_draw_id)

lemma baseline_draw_fields:
  "scenario_id build_baseline_draw = ''CSBASE''"
  "raw_probability_weight build_baseline_draw = 1"
  "demand_vector build_baseline_draw = [7, 5.25, 4.2]"
  by (simp_all add: build_baseline_draw_def Let_def BASELINE_WEIGHT_def baseline_demand_def
      BASELINE_DEMAND_SCALE_def BASELINE_MIN_DEMAND_def)

lemma random_ids_distinct: "distinct (map (\<lambda>idx. scenario_id (random_draw rng idx)) [0..<m])"
proof -
  have "inj_on (\<lambda>idx. scenario_id (random_draw rng idx)) (set [0..<m])"
    by (rule inj_onI) (simp add: random_draw_id zero_pad_inject)
  then show ?thesis by (simp add: distinct_map)
qed

lemma sampled_ids_distinct:
  assumes "sample_scenarios rng n b = Inr draws"
  shows "distinct (map scenario_id draws)"
proof -
  from assms have d: "draws = (if b then [build_baseline_draw] else []) @
             map (random_draw rng) [0..<nat (n - (if b then 1 else 0))]"
    by (simp add: sample_scenarios_Inr)
  have r: "distinct (map scenario_id (map (random_draw rng) [0..<m]))" for m
    using random_ids_distinct[of rng m] by (simp add: comp_def)
  have nb: "''CSBASE'' \<notin> set (map scenario_id (map (random_draw rng) [0..<m]))" for m
    using random_draw_not_baseline[of rng] by (auto simp del: upt_Suc) metis
  show ?thesis
  proof (cases b)
    case True
    with d r nb show ?thesis by (simp add: baseline_draw_fields del: map_map)
  next
    case False
    with d r show ?thesis by simp
  qed
qed


subsection \<open>The probabilities\<close>

lemma baseline_indices_none:
  "\<forall>d\<in>set draws. scenario_id d \<noteq> ''CSBASE'' \<Longrightarrow>
   filter (\<lambda>(idx, draw). scenario_id draw = ''CSBASE'') (enumerate k draws) = []"
  by (induction draws arbitrary: k) simp_all

lemma reserve_baseline_none:
  assumes "\<forall>d\<in>set draws. scenario_id d \<noteq> ''CSBASE''"
  shows "reserve_baseline draws ps = ps"
  by (simp add: reserve_baseline_def INCLUDE_BASELINE_SCENARIO_def BASELINE_PROBABILITY_SHARE_def
      baseline_indices_none[OF assms])

lemma reserve_baseline_head:
  assumes "scenario_id b0 = ''CSBASE''"
  shows "reserve_baseline (b0 # rest) (p0 # prest) =
     (if 1 - p0 \<le> 0 then 1 # map (\<lambda>p. 0) prest
      else 0.35 # map (\<lambda>p. p * (0.65 / (1 - p0))) prest)"
  using assms
  by (simp add: reserve_baseline_def INCLUDE_BASELINE_SCENARIO_def BASELINE_PROBABILITY_SHARE_def
      Let_def)

lemma sum_list_pos_real:
  assumes "ws \<noteq> []" "\<forall>w\<in>set ws. 0 < (w::real)"
  shows "0 < sum_list ws"
  using assms by (induction ws) (auto intro: add_pos_nonneg sum_list_nonneg less_imp_le)

lemma sum_list_divide: "sum_list (map (\<lambda>w. w / c) ws) = sum_list ws / (c::real)"
  by (induction ws) (simp_all add: add_divide_distrib)

lemma normalized_sum:
  assumes "ws \<noteq> []" "\<forall>w\<in>set ws. 0 < (w::real)"
  shows "normalized ws = Some (map (\<lambda>w. w / sum_list ws) ws)"
    and "sum_list (map (\<lambda>w. w / sum_list ws) ws) = 1"
proof -
  from sum_list_pos_real[OF assms] have p: "0 < sum_list ws" .
  then show "normalized ws = Some (map (\<lambda>w. w / sum_list ws) ws)"
    by (simp add: normalized_def)
  from p show "sum_list (map (\<lambda>w. w / sum_list ws) ws) = 1"
    by (simp add: sum_list_divide)
qed

text \<open>The probabilities of a sample without the baseline draw.\<close>

lemma probabilities_without_baseline:
  assumes "draws \<noteq> []" "\<forall>d\<in>set draws. scenario_id d \<noteq> ''CSBASE''"
    "\<forall>d\<in>set draws. 0 < raw_probability_weight d"
  shows "\<exists>ps. probabilities_of draws = Some ps \<and> length ps = length draws \<and> sum_list ps = 1"
proof -
  let ?ws = "map raw_probability_weight draws"
  have ne: "?ws \<noteq> []" and pos: "\<forall>w\<in>set ?ws. 0 < w" using assms(1,3) by simp_all
  from normalized_sum[OF ne pos] reserve_baseline_none[OF assms(2)]
  show ?thesis by (simp add: probabilities_of_def)
qed

text \<open>The probabilities of a sample that starts with the baseline draw.\<close>

lemma probabilities_with_baseline:
  assumes "scenario_id b0 = ''CSBASE''" "raw_probability_weight b0 = 1"
    "\<forall>d\<in>set rest. 0 < raw_probability_weight d"
  shows "probabilities_of (b0 # rest) =
     Some (if rest = [] then [1]
           else 0.35 # map (\<lambda>d. 0.65 * raw_probability_weight d /
                                 sum_list (map raw_probability_weight rest)) rest)"
proof -
  define S where "S = sum_list (map raw_probability_weight rest)"
  have S0: "0 \<le> S" unfolding S_def using assms(3) by (intro sum_list_nonneg) auto
  then have W: "0 < 1 + S" by simp
  have norm: "normalized (map raw_probability_weight (b0 # rest)) =
      Some (1 / (1 + S) # map (\<lambda>w. w / (1 + S)) (map raw_probability_weight rest))"
    using W by (simp add: normalized_def assms(2) S_def)
  have res: "1 - 1 / (1 + S) = S / (1 + S)" using W by (simp add: field_simps)
  show ?thesis
  proof (cases "rest = []")
    case True
    then show ?thesis
      using reserve_baseline_head[OF assms(1), of "[]" 1 "[]"]
      by (simp add: probabilities_of_def normalized_def assms(2))
  next
    case False
    then have "0 < S" unfolding S_def using assms(3) by (intro sum_list_pos_real) auto
    with W have "0 < S / (1 + S)" by (intro divide_pos_pos)
    then have r: "\<not> 1 - 1 / (1 + S) \<le> 0" unfolding res by simp
    have alg: "w / a * (c / (S / a)) = c * w / S" if "a \<noteq> 0" "S \<noteq> 0" for w a c :: real
      using that by simp
    have "w / (1 + S) * (0.65 / (1 - 1 / (1 + S))) = 0.65 * w / S" for w
      unfolding res using W \<open>0 < S\<close> by (intro alg) simp_all
    with False r show ?thesis
      unfolding probabilities_of_def norm
      by (simp add: reserve_baseline_head[OF assms(1)] S_def comp_def)
  qed
qed

lemma sum_list_scaled: "sum_list (map (\<lambda>d. c * f d / s) ds) = c * sum_list (map f ds) / (s::real)"
  by (induction ds) (simp_all add: add_divide_distrib distrib_left)

subsection \<open>The table\<close>

lemma draw_rows_columns:
  "continuous_columns (draw_rows (d, p)) = replicate 3 (scenario_id d, p)"
  by (simp add: continuous_columns_def draw_rows_def hospitals_def eval_nat_numeral)


lemma table_columns:
  "continuous_columns (concat (map draw_rows (zip draws ps))) =
     concat (map (replicate 3) (zip (map scenario_id draws) ps))"
proof -
  have "continuous_columns (concat (map draw_rows qs)) =
          concat (map (replicate 3) (map (\<lambda>(d, p). (scenario_id d, p)) qs))" for qs
  proof (induction qs)
    case Nil
    show ?case by (simp add: continuous_columns_def)
  next
    case (Cons q qs)
    obtain d p where q: "q = (d, p)" by (cases q)
    from Cons draw_rows_columns[of d p] show ?case
      by (simp add: continuous_columns_def q)
  qed
  then show ?thesis by (simp add: zip_map1)
qed

lemma build_dataframe_Some:
  "probabilities_of draws = Some ps \<Longrightarrow>
   build_dataframe draws = Some (concat (map draw_rows (zip draws ps)))"
  by (simp add: build_dataframe_def)

lemma filter_concat_replicate_all:
  "\<forall>y\<in>set ys. P y \<Longrightarrow>
   filter P (concat (map (replicate k) ys)) = concat (map (replicate k) ys)"
  by (induction ys) simp_all

lemma sum_list_snd_zip: "length xs = length ys \<Longrightarrow> sum_list (map snd (zip xs ys)) = sum_list ys"
  by (simp add: map_snd_zip)

lemma map_fst_zip_eq: "length xs = length ys \<Longrightarrow> map fst (zip xs ys) = xs"
  by (simp add: map_fst_zip)

lemma sampled_with_baseline:
  assumes "rng_ok rng" "sample_scenarios rng n True = Inr draws"
  shows "\<exists>rest. draws = build_baseline_draw # rest \<and> int (length rest) = n - 1 \<and>
           rest = map (random_draw rng) [0..<nat (n - 1)] \<and>
           (\<forall>d\<in>set rest. 0 < raw_probability_weight d \<and> scenario_id d \<noteq> ''CSBASE'') \<and>
           distinct (map scenario_id rest)"
proof -
  from assms(2) have n: "0 \<le> n - 1"
    and d: "draws = build_baseline_draw # map (random_draw rng) [0..<nat (n - 1)]"
    by (simp_all add: sample_scenarios_Inr)
  have "\<forall>d\<in>set (map (random_draw rng) [0..<nat (n - 1)]).
          0 < raw_probability_weight d \<and> scenario_id d \<noteq> ''CSBASE''"
    using random_draw_weight_pos[OF assms(1)] random_draw_not_baseline[of rng]
    by (auto simp del: upt_Suc)
  moreover from sampled_ids_distinct[OF assms(2)]
  have "distinct (map scenario_id (map (random_draw rng) [0..<nat (n - 1)]))"
    unfolding d by (simp del: map_map)
  ultimately show ?thesis using n d by simp
qed

text \<open>
  Claim C4: for a sample with the baseline scenario and at least one random draw
  (\<open>num_scenarios \<ge> 2\<close>), with \<open>BASELINE_PROBABILITY_SHARE = 0.35\<close>,
  \<^verbatim>\<open>build_dataframe\<close> gives the scenario "CSBASE" the probability 0.35 and every other
  scenario the probability \<open>0.65 * weight / (sum of the other weights)\<close>, so that the
  others sum to 0.65. This holds for the probabilities and for the rows of the table,
  where the sum is taken over the distinct (scenario_id, scenario_probability) pairs.
\<close>

theorem baseline_probability_share:
  assumes "rng_ok rng" and "2 \<le> n" and "sample_scenarios rng n True = Inr draws"
  shows "\<exists>ps rows. probabilities_of draws = Some ps \<and> build_dataframe draws = Some rows \<and>
     length ps = length draws \<and>
     scenario_id (hd draws) = ''CSBASE'' \<and> hd ps = 0.35 \<and>
     (\<forall>i. 0 < i \<and> i < length draws \<longrightarrow>
        scenario_id (draws ! i) \<noteq> ''CSBASE'' \<and>
        ps ! i = 0.65 * raw_probability_weight (draws ! i) /
                   sum_list (map raw_probability_weight (tl draws))) \<and>
     sum_list (tl ps) = 0.65 \<and>
     (\<exists>r\<in>set rows. c_scenario_id r = ''CSBASE'') \<and>
     (\<forall>r\<in>set rows. c_scenario_id r = ''CSBASE'' \<longrightarrow> c_scenario_probability r = 0.35) \<and>
     probability_sum (filter (\<lambda>(sid, p). sid \<noteq> ''CSBASE'') (continuous_columns rows)) = 0.65"
proof -
  from sampled_with_baseline[OF assms(1,3)] obtain rest where
    draws: "draws = build_baseline_draw # rest" and len: "int (length rest) = n - 1" and
    rest: "\<forall>d\<in>set rest. 0 < raw_probability_weight d \<and> scenario_id d \<noteq> ''CSBASE''" and
    dist: "distinct (map scenario_id rest)" by blast
  from len assms(2) have ne: "rest \<noteq> []" by auto
  define S where "S = sum_list (map raw_probability_weight rest)"
  define qs where "qs = map (\<lambda>d. 0.65 * raw_probability_weight d / S) rest"
  define ps where "ps = 0.35 # qs"
  define rows where "rows = concat (map draw_rows (zip draws ps))"
  have S: "0 < S" unfolding S_def using ne rest by (intro sum_list_pos_real) auto
  have ps: "probabilities_of draws = Some ps"
    unfolding draws ps_def qs_def S_def
    using probabilities_with_baseline[OF baseline_draw_fields(1,2), of rest] rest ne by simp
  have rows: "build_dataframe draws = Some rows"
    unfolding rows_def by (rule build_dataframe_Some[OF ps])
  have lq: "length qs = length rest" by (simp add: qs_def)
  have lp: "length ps = length draws" by (simp add: ps_def draws lq)
  have hd: "scenario_id (hd draws) = ''CSBASE''" "hd ps = 0.35"
    by (simp_all add: draws ps_def baseline_draw_fields)
  have nth: "scenario_id (draws ! i) \<noteq> ''CSBASE'' \<and>
        ps ! i = 0.65 * raw_probability_weight (draws ! i) /
                   sum_list (map raw_probability_weight (tl draws))"
    if "0 < i \<and> i < length draws" for i
  proof -
    from that obtain j where i: "i = Suc j" and j: "j < length rest"
      by (cases i) (auto simp: draws)
    from j rest have "scenario_id (rest ! j) \<noteq> ''CSBASE''" by auto
    with j show ?thesis by (simp add: i draws ps_def qs_def S_def)
  qed
  have sumq: "sum_list qs = 0.65"
    unfolding qs_def using S by (simp add: sum_list_scaled S_def[symmetric])
  then have tl: "sum_list (tl ps) = 0.65" by (simp add: ps_def)
  have cols: "continuous_columns rows =
      replicate 3 (''CSBASE'', 0.35) @ concat (map (replicate 3) (zip (map scenario_id rest) qs))"
    unfolding rows_def table_columns by (simp add: draws ps_def baseline_draw_fields)
  have others: "\<forall>y\<in>set (zip (map scenario_id rest) qs). (\<lambda>(sid, p). sid \<noteq> ''CSBASE'') y"
  proof
    fix y assume "y \<in> set (zip (map scenario_id rest) qs)"
    then have "fst y \<in> set (map scenario_id rest)"
      using set_zip_leftD[of "fst y" "snd y" "map scenario_id rest" qs] by simp
    with rest show "(\<lambda>(sid, p). sid \<noteq> ''CSBASE'') y" by (cases y) auto
  qed
  have ex: "\<exists>r\<in>set rows. c_scenario_id r = ''CSBASE''"
  proof -
    have "(''CSBASE'', 0.35) \<in> set (continuous_columns rows)" unfolding cols by simp
    then show ?thesis by (auto simp: continuous_columns_def)
  qed
  have base: "c_scenario_probability r = 0.35" if "r \<in> set rows" "c_scenario_id r = ''CSBASE''"
    for r
  proof -
    from that(1) have "(c_scenario_id r, c_scenario_probability r) \<in> set (continuous_columns rows)"
      by (auto simp: continuous_columns_def)
    then consider "(c_scenario_id r, c_scenario_probability r) = (''CSBASE'', 0.35)" |
      y where "y \<in> set (zip (map scenario_id rest) qs)"
        "(c_scenario_id r, c_scenario_probability r) = y"
      unfolding cols by auto
    then show ?thesis
    proof cases
      case 1
      then show ?thesis by simp
    next
      case 2
      with others that(2) show ?thesis by auto
    qed
  qed
  have "filter (\<lambda>(sid, p). sid \<noteq> ''CSBASE'') (continuous_columns rows) =
          concat (map (replicate 3) (zip (map scenario_id rest) qs))"
    unfolding cols by (simp add: filter_concat_replicate_all[OF others])
  moreover have "distinct (map fst (zip (map scenario_id rest) qs))"
    using dist lq by (simp add: map_fst_zip_eq)
  ultimately have "probability_sum (filter (\<lambda>(sid, p). sid \<noteq> ''CSBASE'')
      (continuous_columns rows)) = sum_list (map snd (zip (map scenario_id rest) qs))"
    by (simp add: probability_sum_replicate(1))
  also have "\<dots> = 0.65" using lq sumq by (simp add: sum_list_snd_zip)
  finally have rest_sum: "probability_sum (filter (\<lambda>(sid, p). sid \<noteq> ''CSBASE'')
      (continuous_columns rows)) = 0.65" .
  from ps rows lp hd nth tl ex base rest_sum show ?thesis by blast
qed

lemma example_rng_ok: "rng_ok example_rng"
proof -
  have "length hazard_catalog = 4" "length hospitals = 3"
    by (simp_all add: hazard_catalog_def hospitals_def)
  then show ?thesis by (simp add: rng_ok_def example_rng_def)
qed

lemma example_sample:
  "sample_scenarios example_rng 2 True = Inr [build_baseline_draw, random_draw example_rng 0]"
  by (simp add: sample_scenarios_def)

text \<open>One baseline draw and one random draw: the probabilities are 0.35 and 0.65.\<close>

theorem baseline_probability_share_witness:
  "rng_ok example_rng \<and>
   sample_scenarios example_rng 2 True = Inr [build_baseline_draw, random_draw example_rng 0] \<and>
   probabilities_of [build_baseline_draw, random_draw example_rng 0] = Some [0.35, 0.65]"
proof -
  from baseline_probability_share[OF example_rng_ok _ example_sample]
  obtain ps where ps: "probabilities_of [build_baseline_draw, random_draw example_rng 0] = Some ps"
    and l: "length ps = 2" and h: "hd ps = 0.35" and t: "sum_list (tl ps) = 0.65"
    by auto
  from l obtain a b where ab: "ps = [a, b]"
    by (cases ps; cases "tl ps") auto
  with h t have "ps = [0.35, 0.65]" by simp
  with ps example_rng_ok example_sample show ?thesis by simp
qed



lemma sampled_weights_pos:
  assumes "rng_ok rng" "sample_scenarios rng n b = Inr draws"
  shows "\<forall>d\<in>set draws. 0 < raw_probability_weight d"
proof -
  from assms(2) have d: "draws = (if b then [build_baseline_draw] else []) @
             map (random_draw rng) [0..<nat (n - (if b then 1 else 0))]"
    by (simp add: sample_scenarios_Inr)
  show ?thesis unfolding d
    using random_draw_weight_pos[OF assms(1)] by (auto simp: baseline_draw_fields simp del: upt_Suc)
qed


lemma sampled_probabilities_sum:
  assumes "rng_ok rng" "1 \<le> n" "sample_scenarios rng n b = Inr draws"
  shows "\<exists>ps. probabilities_of draws = Some ps \<and> length ps = length draws \<and> sum_list ps = 1"
proof (cases b)
  case True
  from assms(3) True have "sample_scenarios rng n True = Inr draws" by simp
  from sampled_with_baseline[OF assms(1) this] obtain rest where
    draws: "draws = build_baseline_draw # rest" and
    rest: "\<forall>d\<in>set rest. 0 < raw_probability_weight d \<and> scenario_id d \<noteq> ''CSBASE''"
    by blast
  define S where "S = sum_list (map raw_probability_weight rest)"
  from rest have pos: "\<forall>d\<in>set rest. 0 < raw_probability_weight d" by blast
  note p = probabilities_with_baseline[OF baseline_draw_fields(1,2) pos]
  show ?thesis
  proof (cases "rest = []")
    case True
    with p show ?thesis by (simp add: draws)
  next
    case False
    then have "0 < S" unfolding S_def using pos by (intro sum_list_pos_real) auto
    then have "sum_list (map (\<lambda>d. 0.65 * raw_probability_weight d / S) rest) = 0.65"
      by (simp add: sum_list_scaled S_def[symmetric])
    with p False show ?thesis by (simp add: draws S_def)
  qed
next
  case False
  from assms(3) have d: "draws = map (random_draw rng) [0..<nat n]"
    by (simp add: sample_scenarios_Inr False)
  from assms(2) have ne: "draws \<noteq> []" unfolding d by simp
  have nb: "\<forall>d\<in>set draws. scenario_id d \<noteq> ''CSBASE''"
    unfolding d using random_draw_not_baseline[of rng] by (auto simp del: upt_Suc)
  from probabilities_without_baseline[OF ne nb sampled_weights_pos[OF assms(1,3)]]
  show ?thesis .
qed

lemma table_probability_sum:
  assumes "probabilities_of draws = Some ps" "length ps = length draws"
    "distinct (map scenario_id draws)"
  shows "\<exists>rows. build_dataframe draws = Some rows \<and>
           distinct (map fst (drop_duplicates (continuous_columns rows))) \<and>
           probability_sum (continuous_columns rows) = sum_list ps"
proof -
  let ?ys = "zip (map scenario_id draws) ps"
  have d: "distinct (map fst ?ys)" using assms(2,3) by (simp add: map_fst_zip_eq)
  have "probability_sum (concat (map (replicate 3) ?ys)) = sum_list (map snd ?ys)"
    by (rule probability_sum_replicate(1)[OF _ d]) simp
  moreover have "distinct (map fst (drop_duplicates (concat (map (replicate 3) ?ys))))"
    by (rule probability_sum_replicate(2)[OF _ d]) simp
  moreover have "sum_list (map snd ?ys) = sum_list ps"
    using assms(2) by (simp add: sum_list_snd_zip)
  ultimately show ?thesis
    using build_dataframe_Some[OF assms(1)] by (simp add: table_columns)
qed



section \<open>Properties of the hybrid sampler\<close>

lemma hybrid_sample_columns:
  "hybrid_columns (hybrid_sample_rows rng ((pos, sid, dtype, demands, probability), sample_idx)) =
     replicate 3 (sid @ ''_'' @ zero_pad 3 sample_idx,
                  probability / real NUM_CONTINUOUS_SAMPLES_PER_SCENARIO)"
  by (simp add: hybrid_columns_def hybrid_sample_rows_def Let_def hybrid_hospitals_def
      eval_nat_numeral)

lemma hybrid_rows_columns:
  "hybrid_columns (hybrid_rows rng) =
     concat (map (replicate 3) (map hybrid_key
       (List.product (enumerate 0 hybrid_scenarios)
          [0..<NUM_CONTINUOUS_SAMPLES_PER_SCENARIO])))"
proof -
  have "hybrid_columns (concat (map (hybrid_sample_rows rng) qs)) =
          concat (map (replicate 3) (map hybrid_key qs))" for qs
  proof (induction qs)
    case Nil
    show ?case by (simp add: hybrid_columns_def)
  next
    case (Cons q qs)
    obtain pos sid dtype demands probability sample_idx where
      q: "q = ((pos, sid, dtype, demands, probability), sample_idx)"
      by (cases q) auto
    have "hybrid_columns (hybrid_sample_rows rng q @ concat (map (hybrid_sample_rows rng) qs)) =
          hybrid_columns (hybrid_sample_rows rng q) @
          hybrid_columns (concat (map (hybrid_sample_rows rng) qs))"
      by (simp add: hybrid_columns_def)
    with Cons show ?case
      by (simp add: q hybrid_sample_columns hybrid_key_def)
  qed
  then show ?thesis by (simp add: hybrid_rows_def)
qed

lemma hybrid_scenario_ids:
  "map (\<lambda>e. fst (snd e)) (enumerate 0 hybrid_scenarios) =
     [''S0'', ''S1'', ''S2'', ''S3'', ''S4'', ''S5'', ''S6'', ''S7'']"
  by (simp add: hybrid_scenarios_def)

lemma hybrid_scenario_id_length:
  assumes "e \<in> set (enumerate 0 hybrid_scenarios)"
  shows "length (fst (snd e)) = 2"
proof -
  have "\<forall>s\<in>set (map (\<lambda>e. fst (snd e)) (enumerate 0 hybrid_scenarios)). length s = 2"
    unfolding hybrid_scenario_ids by simp
  with assms show ?thesis by auto
qed

lemma hybrid_scenario_id_inject:
  assumes "e \<in> set (enumerate 0 hybrid_scenarios)" "e' \<in> set (enumerate 0 hybrid_scenarios)"
    "fst (snd e) = fst (snd e')"
  shows "e = e'"
proof -
  have "distinct (map (\<lambda>e. fst (snd e)) (enumerate 0 hybrid_scenarios))"
    unfolding hybrid_scenario_ids by simp
  then have "inj_on (\<lambda>e. fst (snd e)) (set (enumerate 0 hybrid_scenarios))"
    by (simp add: distinct_map)
  with assms show ?thesis by (auto dest: inj_onD)
qed

lemma hybrid_ids_distinct:
  "distinct (map fst (map hybrid_key
       (List.product (enumerate 0 hybrid_scenarios) [0..<n])))"
proof -
  have d: "distinct (List.product (enumerate 0 hybrid_scenarios) [0..<n])"
    by (intro distinct_product) (simp_all add: distinct_enumerate)
  have "inj_on (\<lambda>q. fst (hybrid_key q))
          (set (List.product (enumerate 0 hybrid_scenarios) [0..<n]))"
  proof (rule inj_onI)
    fix q q'
    assume q: "q \<in> set (List.product (enumerate 0 hybrid_scenarios) [0..<n])"
      and q': "q' \<in> set (List.product (enumerate 0 hybrid_scenarios) [0..<n])"
      and eq: "fst (hybrid_key q) = fst (hybrid_key q')"
    obtain e i where qe: "q = (e, i)" by (cases q)
    obtain e' i' where qe': "q' = (e', i')" by (cases q')
    from q q' have e: "e \<in> set (enumerate 0 hybrid_scenarios)"
      and e': "e' \<in> set (enumerate 0 hybrid_scenarios)" by (simp_all add: qe qe')
    have k: "fst (hybrid_key (e, i)) = fst (snd e) @ ''_'' @ zero_pad 3 i" for e i
      by (simp add: hybrid_key_def split: prod.splits)
    from eq have s: "fst (snd e) @ ''_'' @ zero_pad 3 i = fst (snd e') @ ''_'' @ zero_pad 3 i'"
      by (simp add: qe qe' k)
    from hybrid_scenario_id_length[OF e] hybrid_scenario_id_length[OF e']
    have "length (fst (snd e)) = length (fst (snd e'))" by simp
    with s have "fst (snd e) = fst (snd e')" and "zero_pad 3 i = zero_pad 3 i'" by simp_all
    with hybrid_scenario_id_inject[OF e e'] zero_pad_inject show "q = q'"
      by (simp add: qe qe')
  qed
  with d show ?thesis by (simp add: distinct_map comp_def)
qed

lemma sum_list_product_fst:
  "sum_list (map (\<lambda>(e, i). f e) (List.product es js)) =
     real (length js) * sum_list (map f es)"
proof (induction es)
  case Nil
  show ?case by simp
next
  case (Cons e es)
  have "sum_list (map (\<lambda>(e, i). f e) (map (Pair e) js)) = real (length js) * f e"
    by (induction js) (simp_all add: algebra_simps)
  with Cons show ?case by (simp add: algebra_simps)
qed

lemma hybrid_probability_total:
  "sum_list (map (\<lambda>e. snd (snd (snd (snd e)))) (enumerate 0 hybrid_scenarios)) = 1"
  by (simp add: hybrid_scenarios_def)

lemma hybrid_key_sum:
  "sum_list (map snd (map hybrid_key
       (List.product (enumerate 0 hybrid_scenarios)
          [0..<NUM_CONTINUOUS_SAMPLES_PER_SCENARIO]))) = 1"
proof -
  let ?N = "NUM_CONTINUOUS_SAMPLES_PER_SCENARIO"
  have "map snd (map hybrid_key (List.product (enumerate 0 hybrid_scenarios) [0..<?N])) =
        map (\<lambda>(e, i). snd (snd (snd (snd e))) / real ?N)
          (List.product (enumerate 0 hybrid_scenarios) [0..<?N])"
    by (simp add: hybrid_key_def split_def)
  then have "sum_list (map snd (map hybrid_key
       (List.product (enumerate 0 hybrid_scenarios) [0..<?N]))) =
     real ?N * sum_list (map (\<lambda>e. snd (snd (snd (snd e))) / real ?N)
                           (enumerate 0 hybrid_scenarios))"
    by (simp only: sum_list_product_fst length_upt diff_zero)
  also have "\<dots> = real ?N * (sum_list (map (\<lambda>e. snd (snd (snd (snd e))))
                           (enumerate 0 hybrid_scenarios)) / real ?N)"
    by (simp only: sum_list_divide[symmetric] map_map comp_def)
  also have "\<dots> = 1"
    unfolding hybrid_probability_total by (simp add: NUM_CONTINUOUS_SAMPLES_PER_SCENARIO_def)
  finally show ?thesis .
qed

lemma hybrid_probability_sum:
  "probability_sum (hybrid_columns (hybrid_rows rng)) = 1"
  "distinct (map fst (drop_duplicates (hybrid_columns (hybrid_rows rng))))"
  unfolding hybrid_rows_columns
  using probability_sum_replicate[OF _ hybrid_ids_distinct, of 3] hybrid_key_sum by simp_all







section \<open>Properties of all three generators\<close>

lemma dataset_table:
  "\<exists>rows. dataset_rows = Inr rows \<and>
     distinct (map fst (drop_duplicates (dataset_columns rows))) \<and>
     probability_sum (dataset_columns rows) = 1 \<and>
     (\<forall>r\<in>set rows. 0 < d_demand r)"
proof -
  from dataset_rows_value obtain rows where rows: "dataset_rows = Inr rows"
    and cols: "dataset_columns rows =
       concat (map (\<lambda>(sid, dtype, demands, probability). replicate 3 (sid, probability))
         dataset_scenarios)"
    and dem: "list_all (\<lambda>r. 0 < d_demand r) rows"
    unfolding dataset_columns_def by blast
  have "distinct (map fst (drop_duplicates (dataset_columns rows)))"
    unfolding cols by (rule dataset_ids_distinct)
  moreover have "probability_sum (dataset_columns rows) = 1"
    unfolding cols by (rule dataset_probability_sum)
  moreover from dem have "\<forall>r\<in>set rows. 0 < d_demand r" by (simp add: list_all_iff)
  ultimately show ?thesis using rows by blast
qed

lemma main_run:
  "\<exists>draws. sample_scenarios rng NUM_SCENARIOS True = Inr draws \<and>
           main rng = Inr (build_dataframe draws)"
proof -
  have "0 \<le> NUM_SCENARIOS - 1" by (simp add: NUM_SCENARIOS_def)
  then obtain draws where s: "sample_scenarios rng NUM_SCENARIOS True = Inr draws"
    by (simp add: sample_scenarios_Inr)
  then have "main rng = Inr (build_dataframe draws)"
    by (simp add: main_def INCLUDE_BASELINE_SCENARIO_def)
  with s show ?thesis by blast
qed

text \<open>
  Claim C1: for each of the three generators the scenario probabilities, summed over the
  distinct (scenario_id, scenario_probability) pairs of the table as
  \<^verbatim>\<open>summarize_dataset\<close> sums them, give 1, and these pairs have pairwise different
  scenario ids. For the continuous sampler this holds for every sample of at least one
  scenario, with or without the baseline draw (a single baseline draw is the branch in
  which the baseline holds all mass), and so for \<^verbatim>\<open>main\<close>; it holds for every output of
  the random generator.
\<close>

theorem scenario_probabilities_sum_to_one:
  "(\<exists>rows. dataset_rows = Inr rows \<and>
      distinct (map fst (drop_duplicates (dataset_columns rows))) \<and>
      probability_sum (dataset_columns rows) = 1) \<and>
   (rng_ok rng \<and> 1 \<le> n \<and> sample_scenarios rng n b = Inr draws \<longrightarrow>
      (\<exists>ps rows. probabilities_of draws = Some ps \<and> length ps = length draws \<and>
         sum_list ps = 1 \<and> build_dataframe draws = Some rows \<and>
         distinct (map fst (drop_duplicates (continuous_columns rows))) \<and>
         probability_sum (continuous_columns rows) = 1)) \<and>
   (rng_ok rng \<longrightarrow>
      (\<exists>rows. main rng = Inr (Some rows) \<and>
         distinct (map fst (drop_duplicates (continuous_columns rows))) \<and>
         probability_sum (continuous_columns rows) = 1)) \<and>
   distinct (map fst (drop_duplicates (hybrid_columns (hybrid_rows hrng)))) \<and>
   probability_sum (hybrid_columns (hybrid_rows hrng)) = 1"
proof -
  have discrete: "\<exists>rows. dataset_rows = Inr rows \<and>
      distinct (map fst (drop_duplicates (dataset_columns rows))) \<and>
      probability_sum (dataset_columns rows) = 1"
    using dataset_table by blast
  have continuous: "\<exists>ps rows. probabilities_of ds = Some ps \<and> length ps = length ds \<and>
         sum_list ps = 1 \<and> build_dataframe ds = Some rows \<and>
         distinct (map fst (drop_duplicates (continuous_columns rows))) \<and>
         probability_sum (continuous_columns rows) = 1"
    if ok: "rng_ok rng" and m: "1 \<le> m" and s: "sample_scenarios rng m c = Inr ds" for m c ds
  proof -
    from sampled_probabilities_sum[OF ok m s] obtain ps where
      ps: "probabilities_of ds = Some ps" "length ps = length ds" "sum_list ps = 1" by blast
    from table_probability_sum[OF ps(1,2) sampled_ids_distinct[OF s]] ps show ?thesis by auto
  qed
  have whole: "\<exists>rows. main rng = Inr (Some rows) \<and>
         distinct (map fst (drop_duplicates (continuous_columns rows))) \<and>
         probability_sum (continuous_columns rows) = 1" if ok: "rng_ok rng"
  proof -
    from main_run obtain ds where s: "sample_scenarios rng NUM_SCENARIOS True = Inr ds"
      and m: "main rng = Inr (build_dataframe ds)" by blast
    have "1 \<le> NUM_SCENARIOS" by (simp add: NUM_SCENARIOS_def)
    from continuous[OF ok this s] m show ?thesis by auto
  qed
  from discrete continuous whole hybrid_probability_sum[of hrng] show ?thesis by blast
qed

text \<open>
  Samples of one and of two scenarios with the baseline, and the run of \<^verbatim>\<open>main\<close>, for
  the example outputs of the random generator.
\<close>

theorem scenario_probabilities_sum_to_one_witness:
  "rng_ok example_rng \<and>
   sample_scenarios example_rng 1 True = Inr [build_baseline_draw] \<and>
   probabilities_of [build_baseline_draw] = Some [1] \<and>
   (\<exists>rows. build_dataframe [build_baseline_draw] = Some rows \<and>
      probability_sum (continuous_columns rows) = 1) \<and>
   sample_scenarios example_rng 2 True = Inr [build_baseline_draw, random_draw example_rng 0] \<and>
   (\<exists>rows. build_dataframe [build_baseline_draw, random_draw example_rng 0] = Some rows \<and>
      probability_sum (continuous_columns rows) = 1) \<and>
   (\<exists>rows. main example_rng = Inr (Some rows) \<and> probability_sum (continuous_columns rows) = 1)"
proof -
  have s1: "sample_scenarios example_rng 1 True = Inr [build_baseline_draw]"
    by (simp add: sample_scenarios_def)
  note t1 = scenario_probabilities_sum_to_one[of example_rng 1 True "[build_baseline_draw]" example_hybrid_rng]
  note t2 = scenario_probabilities_sum_to_one[of example_rng 2 True
      "[build_baseline_draw, random_draw example_rng 0]" example_hybrid_rng]
  from t1 example_rng_ok s1 obtain ps rows where
    ps: "probabilities_of [build_baseline_draw] = Some ps" "length ps = 1" "sum_list ps = 1"
    and rows: "build_dataframe [build_baseline_draw] = Some rows"
      "probability_sum (continuous_columns rows) = 1"
    by auto
  from ps(2) obtain a where "ps = [a]" by (cases ps) auto
  with ps have p1: "probabilities_of [build_baseline_draw] = Some [1]" by simp
  from t2 example_rng_ok example_sample have
    r2: "\<exists>rows. build_dataframe [build_baseline_draw, random_draw example_rng 0] = Some rows \<and>
      probability_sum (continuous_columns rows) = 1"
    by auto
  from t1 example_rng_ok have
    m: "\<exists>rows. main example_rng = Inr (Some rows) \<and> probability_sum (continuous_columns rows) = 1"
    by blast
  from example_rng_ok s1 p1 rows example_sample r2 m show ?thesis by blast
qed




section \<open>The input validation of the generators\<close>



end
